theory Spec2Isabelle
  imports Main
begin

section \<open>The store\<close>

text \<open>
  The two tables of \<^verbatim>\<open>initializeDatabase\<close> (server.js, lines 49-69). A row of
  \<^verbatim>\<open>messages\<close> carries \<^verbatim>\<open>id\<close>, \<^verbatim>\<open>text\<close>, \<^verbatim>\<open>category\<close>, \<^verbatim>\<open>author\<close> and
  \<^verbatim>\<open>reflection_count\<close>; a row of \<^verbatim>\<open>reflections\<close> carries \<^verbatim>\<open>message_id\<close> and
  \<^verbatim>\<open>user_ip\<close>. The columns \<^verbatim>\<open>created_at\<close> (both tables) and \<^verbatim>\<open>reflections.id\<close> are left
  out: the write paths never read them (the pre-check of the reflect route only counts the
  rows it selects). \<^verbatim>\<open>category\<close> is nullable and the share route can store NULL in it;
  \<^verbatim>\<open>author\<close> and \<^verbatim>\<open>reflection_count\<close> are always written with a value.

  An INTEGER column and the sequence behind a SERIAL column hold values up to
  \<open>2^31 - 1\<close> (\<open>int4_max\<close>); the store raises, it never wraps, when a statement would go
  beyond. A string is the list of its characters; characters are the code units below
  256. A text with a NUL character is refused by the store.
\<close>

record message =
  msg_id :: int
  msg_text :: string
  category :: "string option"
  author :: string
  reflection_count :: int

record reflection =
  message_id :: int
  user_ip :: string

text \<open>\<open>messages_id_seq\<close> is the last value the sequence behind \<^verbatim>\<open>messages.id\<close> gave out.\<close>

record database =
  messages :: "message list"
  reflections :: "reflection list"
  messages_id_seq :: int

definition int4_max :: int where
  "int4_max = 2147483647"

definition has_nul :: "string \<Rightarrow> bool" where
  "has_nul s \<longleftrightarrow> CHR 0x00 \<in> set s"

definition empty_database :: database where
  "empty_database = \<lparr>messages = [], reflections = [], messages_id_seq = 0\<rparr>"

text \<open>
  What the store can raise. \<open>ConnectionFailure\<close> stands for every failure that does not
  depend on the two tables or on the sequence of \<^verbatim>\<open>messages.id\<close>: no connection, a
  timeout, the server gone, and the sequence behind \<^verbatim>\<open>reflections.id\<close> used up (that
  column and its sequence are not carried here).
\<close>

datatype db_error =
    ConnectionFailure
  | InvalidTextRepresentation
  | CharacterNotInRepertoire
  | StringDataRightTruncation
  | NumericValueOutOfRange
  | SequenceLimitExceeded
  | UniqueViolation
  | ForeignKeyViolation

text \<open>
  Every \<^verbatim>\<open>pool.query\<close> call of the program has a label, and a run of a handler is given
  a set of labels whose call fails with \<open>ConnectionFailure\<close>. A failing statement changes
  nothing (statements are atomic in the store).
\<close>

datatype stmt =
    CREATE_messages
  | CREATE_reflections
  | COUNT_messages
  | INSERT_seed nat
  | INSERT_message
  | SELECT_existing
  | BEGIN
  | INSERT_reflection
  | UPDATE_count
  | COMMIT
  | SELECT_count

type_synonym faults = "stmt \<Rightarrow> bool"

definition no_faults :: faults where
  "no_faults = (\<lambda>_. False)"

definition pool_query :: "faults \<Rightarrow> stmt \<Rightarrow> (db_error + 'a) \<Rightarrow> db_error + 'a" where
  "pool_query f st result = (if f st then Inl ConnectionFailure else result)"

text \<open>
  Storing a string in a \<^verbatim>\<open>VARCHAR(n)\<close> column: a longer string is an error, unless the
  excess characters are all spaces, in which case it is cut to \<open>n\<close> characters.
\<close>

definition varchar :: "nat \<Rightarrow> string \<Rightarrow> string option" where
  "varchar n s =
     (if length s \<le> n then Some s
      else if list_all (\<lambda>c. c = CHR '' '') (drop n s) then Some (take n s)
      else None)"

text \<open>
  \<^verbatim>\<open>INSERT INTO messages (text, category, author[, reflection_count]) VALUES (...)\<close>:
  no parameter may hold a NUL character, the strings are fitted to \<^verbatim>\<open>VARCHAR(50)\<close> and
  \<^verbatim>\<open>VARCHAR(100)\<close>, the id comes from the sequence, which stops at \<open>int4_max\<close>, and the
  primary key must be new. An insert that fails leaves the sequence where it was.
\<close>

definition insert_message ::
  "database \<Rightarrow> string \<Rightarrow> string option \<Rightarrow> string \<Rightarrow> int \<Rightarrow> db_error + database" where
  "insert_message db txt cat auth cnt =
     (if has_nul txt \<or> (case cat of None \<Rightarrow> False | Some c \<Rightarrow> has_nul c) \<or> has_nul auth
      then Inl CharacterNotInRepertoire
      else
     (case (case cat of None \<Rightarrow> Some None | Some c \<Rightarrow> map_option Some (varchar 50 c)) of
        None \<Rightarrow> Inl StringDataRightTruncation
      | Some cat' \<Rightarrow>
          (case varchar 100 auth of
             None \<Rightarrow> Inl StringDataRightTruncation
           | Some auth' \<Rightarrow>
               (let new_id = messages_id_seq db + 1 in
                if int4_max \<le> messages_id_seq db then Inl SequenceLimitExceeded
                else if new_id \<in> set (map msg_id (messages db)) then Inl UniqueViolation
                else Inr (db\<lparr>messages := messages db @
                                [\<lparr>msg_id = new_id, msg_text = txt, category = cat',
                                  author = auth', reflection_count = cnt\<rparr>],
                              messages_id_seq := new_id\<rparr>)))))"

text \<open>
  The path parameter \<^verbatim>\<open>messageId\<close> is text; the store converts it to INTEGER and raises
  when it cannot. The handlers below take the outcome of that conversion: \<open>None\<close> when
  the store rejects the text, \<open>Some m\<close> when it reads the integer \<open>m\<close>.

  \<^verbatim>\<open>SELECT id FROM reflections WHERE message_id = $1 AND user_ip = $2\<close>
\<close>

definition select_existing :: "database \<Rightarrow> int option \<Rightarrow> string \<Rightarrow> db_error + reflection list" where
  "select_existing db messageId userIp =
     (case messageId of
        None \<Rightarrow> Inl InvalidTextRepresentation
      | Some m \<Rightarrow> Inr (filter (\<lambda>r. message_id r = m \<and> user_ip r = userIp) (reflections db)))"

text \<open>
  \<open>ledger\<close> lists the pairs that \<^verbatim>\<open>UNIQUE(message_id, user_ip)\<close> keeps apart.
  \<^verbatim>\<open>INSERT INTO reflections (message_id, user_ip) VALUES ($1, $2)\<close>, under
  \<^verbatim>\<open>user_ip VARCHAR(45)\<close>, \<^verbatim>\<open>UNIQUE(message_id, user_ip)\<close> and
  \<^verbatim>\<open>message_id INTEGER REFERENCES messages(id)\<close>.
\<close>

definition ledger :: "database \<Rightarrow> (int \<times> string) list" where
  "ledger db = map (\<lambda>r. (message_id r, user_ip r)) (reflections db)"

definition insert_reflection :: "database \<Rightarrow> int option \<Rightarrow> string \<Rightarrow> db_error + database" where
  "insert_reflection db messageId userIp =
     (case messageId of
        None \<Rightarrow> Inl InvalidTextRepresentation
      | Some m \<Rightarrow>
          (case varchar 45 userIp of
             None \<Rightarrow> Inl StringDataRightTruncation
           | Some ip \<Rightarrow>
               if (m, ip) \<in> set (ledger db) then Inl UniqueViolation
               else if m \<notin> set (map msg_id (messages db)) then Inl ForeignKeyViolation
               else Inr (db\<lparr>reflections := reflections db @
                               [\<lparr>message_id = m, user_ip = ip\<rparr>]\<rparr>)))"

text \<open>
  \<^verbatim>\<open>UPDATE messages SET reflection_count = reflection_count + 1 WHERE id = $1\<close>: the sum
  is out of range for INTEGER when a row to update holds \<open>int4_max\<close>, and the statement
  then raises and updates nothing.
\<close>

definition increment :: "int \<Rightarrow> message \<Rightarrow> message" where
  "increment m x = (if msg_id x = m then x\<lparr>reflection_count := reflection_count x + 1\<rparr> else x)"

definition counter_full :: "database \<Rightarrow> int \<Rightarrow> bool" where
  "counter_full db m \<longleftrightarrow>
     list_ex (\<lambda>x. msg_id x = m \<and> int4_max \<le> reflection_count x) (messages db)"

definition update_count :: "database \<Rightarrow> int option \<Rightarrow> db_error + database" where
  "update_count db messageId =
     (case messageId of
        None \<Rightarrow> Inl InvalidTextRepresentation
      | Some m \<Rightarrow>
          if counter_full db m then Inl NumericValueOutOfRange
          else Inr (db\<lparr>messages := map (increment m) (messages db)\<rparr>))"

text \<open>\<^verbatim>\<open>SELECT reflection_count FROM messages WHERE id = $1\<close>\<close>

definition select_count :: "database \<Rightarrow> int option \<Rightarrow> db_error + message list" where
  "select_count db messageId =
     (case messageId of
        None \<Rightarrow> Inl InvalidTextRepresentation
      | Some m \<Rightarrow> Inr (filter (\<lambda>x. msg_id x = m) (messages db)))"

text \<open>
  A request's statements run on one connection: a pool serving one request at a time hands
  every query the client it has just released. The connection holds the current tables and,
  inside a transaction, the tables as they were at \<^verbatim>\<open>BEGIN\<close>. \<^verbatim>\<open>ROLLBACK\<close> outside a
  transaction is a warning, not an error. The handler swallows a failing \<^verbatim>\<open>ROLLBACK\<close>
  (\<^verbatim>\<open>.catch(() => {})\<close>); a transaction whose connection fails is aborted by the store, so
  \<open>rollback\<close> has no failing case.
\<close>

record connection =
  current :: database
  snapshot :: "database option"

definition begin_tx :: "connection \<Rightarrow> db_error + connection" where
  "begin_tx c = Inr (case snapshot c of None \<Rightarrow> c\<lparr>snapshot := Some (current c)\<rparr> | Some _ \<Rightarrow> c)"

definition commit :: "connection \<Rightarrow> db_error + connection" where
  "commit c = Inr (c\<lparr>snapshot := None\<rparr>)"

definition rollback :: "connection \<Rightarrow> connection" where
  "rollback c = (case snapshot c of None \<Rightarrow> c | Some d \<Rightarrow> \<lparr>current = d, snapshot = None\<rparr>)"

definition on_current ::
  "(database \<Rightarrow> db_error + database) \<Rightarrow> connection \<Rightarrow> db_error + connection" where
  "on_current q c = (case q (current c) of Inl e \<Rightarrow> Inl e | Inr d \<Rightarrow> Inr (c\<lparr>current := d\<rparr>))"

section \<open>Voter identity\<close>

text \<open>
  \<^verbatim>\<open>getClientIp\<close> (server.js, lines 176-180). \<open>x_forwarded_for\<close> is
  \<^verbatim>\<open>req.headers['x-forwarded-for']\<close> and \<open>req_ip\<close> is \<^verbatim>\<open>req.ip\<close>, \<open>None\<close> where JavaScript has
  \<^verbatim>\<open>undefined\<close>. \<^verbatim>\<open>split(',')[0]\<close> is the text before the first comma, and \<^verbatim>\<open>||\<close> passes
  over \<^verbatim>\<open>undefined\<close> and the empty string alike. A header value and an address hold no
  NUL character, so the statements on \<^verbatim>\<open>reflections\<close> have no case for one.
\<close>

record request =
  x_forwarded_for :: "string option"
  req_ip :: "string option"
  req_messageId :: "int option"

definition first_element :: "string \<Rightarrow> string" where
  "first_element h = takeWhile (\<lambda>c. c \<noteq> CHR '','') h"

definition or_else :: "string option \<Rightarrow> string \<Rightarrow> string" where
  "or_else v d = (case v of None \<Rightarrow> d | Some s \<Rightarrow> if s = [] then d else s)"

definition getClientIp :: "request \<Rightarrow> string" where
  "getClientIp req =
     or_else (map_option first_element (x_forwarded_for req)) (or_else (req_ip req) ''unknown'')"

section \<open>Registering a reflection\<close>

text \<open>
  The handler of \<^verbatim>\<open>POST /reflect/:messageId\<close> (server.js, lines 236-279).
  \<open>Success n\<close> is \<^verbatim>\<open>{success: true, count: n}\<close>, \<open>AlreadyReflected\<close> is
  \<^verbatim>\<open>{success: false, message: 'Already reflected'}\<close>, \<open>DatabaseError\<close> is status 500 with
  \<^verbatim>\<open>{success: false, error: 'Database error'}\<close>.
\<close>

datatype response = Success int | AlreadyReflected | DatabaseError

text \<open>\<^verbatim>\<open>result.rows[0]?.reflection_count || 0\<close>\<close>

definition count_of_rows :: "message list \<Rightarrow> int" where
  "count_of_rows rows = (case rows of [] \<Rightarrow> 0 | x # _ \<Rightarrow> reflection_count x)"

text \<open>
  Lines 250-272, from \<^verbatim>\<open>BEGIN\<close> to the response: the response, or the error thrown
  together with the connection as the statement that threw found it.
\<close>

definition reflect_transaction ::
  "faults \<Rightarrow> connection \<Rightarrow> int option \<Rightarrow> string \<Rightarrow> (db_error + response) \<times> connection" where
  "reflect_transaction f c0 messageId userIp =
     (case pool_query f BEGIN (begin_tx c0) of
        Inl e \<Rightarrow> (Inl e, c0)
      | Inr c1 \<Rightarrow>
     (case pool_query f INSERT_reflection
             (on_current (\<lambda>d. insert_reflection d messageId userIp) c1) of
        Inl e \<Rightarrow> (Inl e, c1)
      | Inr c2 \<Rightarrow>
     (case pool_query f UPDATE_count (on_current (\<lambda>d. update_count d messageId) c2) of
        Inl e \<Rightarrow> (Inl e, c2)
      | Inr c3 \<Rightarrow>
     (case pool_query f COMMIT (commit c3) of
        Inl e \<Rightarrow> (Inl e, c3)
      | Inr c4 \<Rightarrow>
     (case pool_query f SELECT_count (select_count (current c4) messageId) of
        Inl e \<Rightarrow> (Inl e, c4)
      | Inr rows \<Rightarrow> (Inr (Success (count_of_rows rows)), c4))))))"

text \<open>The body of the \<^verbatim>\<open>try\<close> block: the pre-check, then the transaction.\<close>

definition reflect_try ::
  "faults \<Rightarrow> connection \<Rightarrow> int option \<Rightarrow> string \<Rightarrow> (db_error + response) \<times> connection" where
  "reflect_try f c0 messageId userIp =
     (case pool_query f SELECT_existing (select_existing (current c0) messageId userIp) of
        Inl e \<Rightarrow> (Inl e, c0)
      | Inr existingReflection \<Rightarrow>
          if length existingReflection > 0 then (Inr AlreadyReflected, c0)
          else reflect_transaction f c0 messageId userIp)"

text \<open>
  The \<^verbatim>\<open>catch\<close> block rolls back and answers 500 whatever was thrown; a response of the
  \<^verbatim>\<open>try\<close> block goes out as it is.
\<close>

definition reflect_catch :: "(db_error + response) \<times> connection \<Rightarrow> response \<times> database" where
  "reflect_catch outcome =
     (case outcome of
        (Inr r, c) \<Rightarrow> (r, current c)
      | (Inl error, c) \<Rightarrow> (DatabaseError, current (rollback c)))"

text \<open>The whole operation, from tables to tables, on a connection with no transaction open.\<close>

definition registerReflection ::
  "faults \<Rightarrow> database \<Rightarrow> int option \<Rightarrow> string \<Rightarrow> response \<times> database" where
  "registerReflection f db messageId voterIdentity =
     reflect_catch (reflect_try f \<lparr>current = db, snapshot = None\<rparr> messageId voterIdentity)"

definition post_reflect :: "faults \<Rightarrow> database \<Rightarrow> request \<Rightarrow> response \<times> database" where
  "post_reflect f db req = registerReflection f db (req_messageId req) (getClientIp req)"

section \<open>Submitting a message\<close>

text \<open>
  The handler of \<^verbatim>\<open>POST /share\<close> (server.js, lines 216-234). \<^verbatim>\<open>req.body\<close> is the
  object the body parsers leave; a field of it is absent, a string, or some other JSON
  value. Of the latter the handler uses only whether it is truthy, and the driver passes
  it to the store as a text or as NULL (\<open>None\<close>).
\<close>

datatype jsval = Undefined | Str string | Other bool "string option"

record share_body =
  body_message :: jsval
  body_category :: jsval
  body_author :: jsval

text \<open>
  \<^verbatim>\<open>String.prototype.trim\<close> removes white space and line terminators from both ends;
  among the code units below 256 these are 9 to 13, 32 and 160.
\<close>

definition js_space :: "char \<Rightarrow> bool" where
  "js_space c = ((of_char c :: nat) \<in> {9, 10, 11, 12, 13, 32, 160})"

definition trim :: "string \<Rightarrow> string" where
  "trim s = rev (dropWhile js_space (rev (dropWhile js_space s)))"

text \<open>The destructuring default \<^verbatim>\<open>field = d\<close> applies to \<^verbatim>\<open>undefined\<close> only.\<close>

definition default_to :: "string \<Rightarrow> jsval \<Rightarrow> jsval" where
  "default_to d v = (case v of Undefined \<Rightarrow> Str d | _ \<Rightarrow> v)"

definition sql_param :: "jsval \<Rightarrow> string option" where
  "sql_param v = (case v of Undefined \<Rightarrow> None | Str s \<Rightarrow> Some s | Other _ p \<Rightarrow> p)"

text \<open>A field that is absent, or a string of at most \<open>n\<close> characters without a NUL character.\<close>

definition plain_field :: "nat \<Rightarrow> jsval \<Rightarrow> bool" where
  "plain_field n v =
     (case v of Undefined \<Rightarrow> True | Str c \<Rightarrow> length c \<le> n \<and> \<not> has_nul c | Other _ _ \<Rightarrow> False)"

text \<open>
  \<open>Unhandled\<close>: \<^verbatim>\<open>message.trim\<close> is not a function for a truthy value that is no string;
  the call is outside the \<^verbatim>\<open>try\<close> block, the handler's promise rejects and no response
  is sent. The same call on \<^verbatim>\<open>author\<close> is inside the \<^verbatim>\<open>try\<close> block.
\<close>

datatype share_response = Redirect string | Unhandled

definition post_share :: "faults \<Rightarrow> database \<Rightarrow> share_body \<Rightarrow> share_response \<times> database" where
  "post_share f db body =
     (let message = body_message body;
          category = default_to ''Honest Message'' (body_category body);
          author = default_to ''Anonymous'' (body_author body)
      in case message of
           Undefined \<Rightarrow> (Redirect ''/share?error=empty'', db)
         | Other truthy _ \<Rightarrow>
             if \<not> truthy then (Redirect ''/share?error=empty'', db) else (Unhandled, db)
         | Str m \<Rightarrow>
             if m = [] \<or> length (trim m) = 0 then (Redirect ''/share?error=empty'', db)
             else
               (case author of
                  Str a \<Rightarrow>
                    (case pool_query f INSERT_message
                            (insert_message db (trim m) (sql_param category)
                               (if trim a = [] then ''Anonymous'' else trim a) 0) of
                       Inl error \<Rightarrow> (Redirect ''/share?error=database'', db)
                     | Inr db' \<Rightarrow> (Redirect ''/?success=true'', db'))
                | _ \<Rightarrow> (Redirect ''/share?error=database'', db)))"

section \<open>Initialisation\<close>

text \<open>\<^verbatim>\<open>seedInitialData\<close> (server.js, lines 84-125): text, category, author, reflection_count.\<close>

definition initialMessages :: "(string \<times> string \<times> string \<times> int) list" where
  "initialMessages =
     [(''Today I admitted I've been pretending to be okay when I'm not. There's power in saying 'I'm struggling' out loud.'',
       ''Vulnerability'', ''Anonymous'', 7),
      (''Growth isn't about becoming someone new, but uncovering who you've always been beneath the layers of expectation.'',
       ''Personal Growth'', ''Jamie'', 12),
      (''I'm learning that boundaries aren't walls to keep people out, but gates that let me choose who gets to be in my garden.'',
       ''Personal Growth'', ''Taylor'', 9),
      (''Grateful for: the quiet moment this morning with my coffee, the sun through the window, and nothing urgent demanding my attention.'',
       ''Gratitude'', ''Sam'', 5),
      (''What if we measured success by how often we choose courage over comfort?'',
       ''Question to Ponder'', ''Anonymous'', 15)]"

text \<open>
  The loop stops at the first insert that throws; the rows inserted before it stay (the
  inserts are not in a transaction).
\<close>

fun seed_loop :: "faults \<Rightarrow> nat \<Rightarrow> (string \<times> string \<times> string \<times> int) list \<Rightarrow> database \<Rightarrow> database" where
  "seed_loop f i [] db = db"
| "seed_loop f i ((txt, cat, auth, cnt) # msgs) db =
     (case pool_query f (INSERT_seed i) (insert_message db txt (Some cat) auth cnt) of
        Inl error \<Rightarrow> db
      | Inr db' \<Rightarrow> seed_loop f (Suc i) msgs db')"

definition seedInitialData :: "faults \<Rightarrow> database \<Rightarrow> database" where
  "seedInitialData f db = seed_loop f 0 initialMessages db"

text \<open>
  \<^verbatim>\<open>initializeDatabase\<close> (server.js, lines 46-81). \<^verbatim>\<open>CREATE TABLE IF NOT EXISTS\<close> leaves
  existing tables as they are, and a database without tables is one with empty tables.
  Every error is caught and logged.
\<close>

definition initializeDatabase :: "faults \<Rightarrow> database \<Rightarrow> database" where
  "initializeDatabase f db =
     (if f CREATE_messages \<or> f CREATE_reflections \<or> f COUNT_messages then db
      else if length (messages db) = 0 then seedInitialData f db
      else db)"

section \<open>Constraints and the counter\<close>

text \<open>
  What the schema enforces on the tables: the primary key of \<^verbatim>\<open>messages\<close>, the sequence
  ahead of every id it gave out, the foreign key and the uniqueness constraint of
  \<^verbatim>\<open>reflections\<close>.
\<close>

definition schema_ok :: "database \<Rightarrow> bool" where
  "schema_ok db \<longleftrightarrow>
     distinct (map msg_id (messages db)) \<and>
     list_all (\<lambda>x. msg_id x \<le> messages_id_seq db) (messages db) \<and>
     list_all (\<lambda>r. message_id r \<in> set (map msg_id (messages db))) (reflections db) \<and>
     distinct (ledger db)"

text \<open>\<^verbatim>\<open>count(Reflection where message_id = m)\<close>\<close>

definition ledger_count :: "database \<Rightarrow> int \<Rightarrow> int" where
  "ledger_count db m = int (length (filter (\<lambda>r. message_id r = m) (reflections db)))"

definition counter_invariant :: "database \<Rightarrow> bool" where
  "counter_invariant db \<longleftrightarrow>
     list_all (\<lambda>x. reflection_count x = ledger_count db (msg_id x)) (messages db)"

text \<open>By how much each counter exceeds the ledger count of its message, in table order.\<close>

definition counter_surplus :: "database \<Rightarrow> int list" where
  "counter_surplus db =
     map (\<lambda>x. reflection_count x - ledger_count db (msg_id x)) (messages db)"

text \<open>The tables after one registration has been committed: the ledger row and the increment.\<close>

definition registered :: "database \<Rightarrow> int \<Rightarrow> string \<Rightarrow> database" where
  "registered db m ip =
     db\<lparr>reflections := reflections db @ [\<lparr>message_id = m, user_ip = ip\<rparr>],
        messages := map (increment m) (messages db)\<rparr>"

text \<open>The counter of message \<open>m\<close> as the route's last \<^verbatim>\<open>SELECT\<close> reads it, if the message exists.\<close>

definition stored_count :: "database \<Rightarrow> int \<Rightarrow> int option" where
  "stored_count db m =
     (case filter (\<lambda>x. msg_id x = m) (messages db) of
        [] \<Rightarrow> None
      | x # _ \<Rightarrow> Some (reflection_count x))"

text \<open>The outcomes of the service interface, read off the response.\<close>

datatype status = Registered int | AlreadyRegistered | NotFound | StorageError

definition status_of :: "response \<Rightarrow> status" where
  "status_of r = (case r of Success n \<Rightarrow> Registered n
                  | AlreadyReflected \<Rightarrow> AlreadyRegistered
                  | DatabaseError \<Rightarrow> StorageError)"

text \<open>A request with neither a forwarded header nor a request IP.\<close>

definition anonymous :: "request \<Rightarrow> bool" where
  "anonymous q \<longleftrightarrow> x_forwarded_for q = None \<and> req_ip q = None"

definition is_success :: "response \<Rightarrow> bool" where
  "is_success r = (case r of Success _ \<Rightarrow> True | _ \<Rightarrow> False)"

text \<open>Requests served one after the other, each with its own failures of the store.\<close>

fun serve :: "database \<Rightarrow> (faults \<times> request) list \<Rightarrow> response list \<times> database" where
  "serve db [] = ([], db)"
| "serve db ((f, req) # rest) =
     (let step = post_reflect f db req;
          later = serve (snd step) rest
      in (fst step # fst later, snd later))"

text \<open>How many of the requests \<open>reqs\<close> for message \<open>m\<close> were answered with success.\<close>

definition successes :: "int \<Rightarrow> response list \<Rightarrow> (faults \<times> request) list \<Rightarrow> nat" where
  "successes m rs reqs =
     length (filter (\<lambda>(r, fq). is_success r \<and> req_messageId (snd fq) = Some m) (zip rs reqs))"

section \<open>Example stores\<close>

text \<open>
  A store with the single message M1 and no reflection; the same after voter
  \<open>203.0.113.5\<close> has reflected; an identity as wide as the \<^verbatim>\<open>user_ip\<close> column (45
  characters), the same followed by a space, and one of 46 characters; a store whose
  message has the largest counter an INTEGER holds.
\<close>

definition M1 :: message where
  "M1 = \<lparr>msg_id = 1, msg_text = ''M1'', category = Some ''Honest Message'',
          author = ''Anonymous'', reflection_count = 0\<rparr>"

definition one_message_db :: database where
  "one_message_db = \<lparr>messages = [M1], reflections = [], messages_id_seq = 1\<rparr>"

definition reflected_db :: database where
  "reflected_db =
     \<lparr>messages = [M1\<lparr>reflection_count := 1\<rparr>],
      reflections = [\<lparr>message_id = 1, user_ip = ''203.0.113.5''\<rparr>],
      messages_id_seq = 1\<rparr>"

definition wide_ip :: string where
  "wide_ip = ''0000:0000:0000:0000:0000:ffff:192.168.100.100''"

definition padded_ip :: string where
  "padded_ip = wide_ip @ '' ''"

definition long_ip :: string where
  "long_ip = wide_ip @ ''0''"

definition wide_db :: database where
  "wide_db =
     \<lparr>messages = [M1\<lparr>reflection_count := 1\<rparr>],
      reflections = [\<lparr>message_id = 1, user_ip = wide_ip\<rparr>],
      messages_id_seq = 1\<rparr>"

definition full_db :: database where
  "full_db =
     \<lparr>messages = [M1\<lparr>reflection_count := 2147483647\<rparr>], reflections = [],
      messages_id_seq = 1\<rparr>"

definition fail_at :: "stmt \<Rightarrow> faults" where
  "fail_at st = (\<lambda>st'. st' = st)"

definition anonymous_request :: request where
  "anonymous_request = \<lparr>x_forwarded_for = None, req_ip = None, req_messageId = Some 1\<rparr>"

lemmas example_defs = M1_def one_message_db_def reflected_db_def wide_ip_def padded_ip_def
  long_ip_def wide_db_def full_db_def fail_at_def no_faults_def anonymous_request_def
  int4_max_def has_nul_def counter_full_def

section \<open>The reflect route, case by case\<close>

lemmas reflect_defs = registerReflection_def reflect_catch_def reflect_try_def
  reflect_transaction_def pool_query_def select_existing_def
  begin_tx_def commit_def rollback_def on_current_def insert_reflection_def update_count_def
  select_count_def

lemma filter_pair_empty_list:
  "(filter (\<lambda>r. message_id r = m \<and> user_ip r = v) rs = []) \<longleftrightarrow>
   (m, v) \<notin> set (map (\<lambda>r. (message_id r, user_ip r)) rs)"
  by (induction rs) auto

lemma filter_pair_empty:
  "(filter (\<lambda>r. message_id r = m \<and> user_ip r = v) (reflections db) = []) \<longleftrightarrow>
   (m, v) \<notin> set (ledger db)"
  unfolding ledger_def by (rule filter_pair_empty_list)

lemma registerReflection_cases:
  "registerReflection f db mid v =
    (if f SELECT_existing then (DatabaseError, db) else
     (case mid of None \<Rightarrow> (DatabaseError, db) | Some m \<Rightarrow>
       (if (m, v) \<in> set (ledger db) then (AlreadyReflected, db)
        else if f BEGIN \<or> f INSERT_reflection then (DatabaseError, db)
        else (case varchar 45 v of None \<Rightarrow> (DatabaseError, db) | Some ip \<Rightarrow>
          (if (m, ip) \<in> set (ledger db) \<or> m \<notin> set (map msg_id (messages db))
           then (DatabaseError, db)
           else if f UPDATE_count \<or> counter_full db m \<or> f COMMIT then (DatabaseError, db)
           else if f SELECT_count then (DatabaseError, registered db m ip)
           else (Success (count_of_rows
                            (filter (\<lambda>x. msg_id x = m) (messages (registered db m ip)))),
                 registered db m ip))))))"
  by (simp add: reflect_defs registered_def filter_pair_empty counter_full_def
           split: option.splits)

lemma registerReflection_db:
  "snd (registerReflection f db mid v) = db \<or>
   (\<exists>m ip. m \<in> set (map msg_id (messages db)) \<and> (m, ip) \<notin> set (ledger db) \<and>
      snd (registerReflection f db mid v) = registered db m ip)"
  by (auto simp: registerReflection_cases split: option.splits)

lemma varchar_fits: "length s \<le> n \<Longrightarrow> varchar n s = Some s"
  by (simp add: varchar_def)

lemma msg_id_increment [simp]: "msg_id (increment m x) = msg_id x"
  by (simp add: increment_def)

lemma msg_id_comp_increment [simp]: "msg_id \<circ> increment m = msg_id"
  by (rule ext) simp

lemma messages_registered [simp]:
  "messages (registered db m ip) = map (increment m) (messages db)"
  by (simp add: registered_def)

lemma ledger_registered [simp]: "ledger (registered db m ip) = ledger db @ [(m, ip)]"
  by (simp add: registered_def ledger_def)

lemma filter_increment:
  "filter (\<lambda>x. msg_id x = m) (map (increment m) xs) =
   map (\<lambda>x. x\<lparr>reflection_count := reflection_count x + 1\<rparr>) (filter (\<lambda>x. msg_id x = m) xs)"
  by (induction xs) (auto simp: increment_def)

lemma filter_increment_other:
  "m' \<noteq> m \<Longrightarrow>
   filter (\<lambda>x. msg_id x = m') (map (increment m) xs) = filter (\<lambda>x. msg_id x = m') xs"
  by (induction xs) (auto simp: increment_def)

lemma stored_count_registered:
  "stored_count (registered db m ip) m' =
     (if m' = m then map_option (\<lambda>c. c + 1) (stored_count db m) else stored_count db m')"
proof (cases "m' = m")
  case True
  then show ?thesis
    by (simp add: stored_count_def filter_increment split: list.splits)
next
  case False
  then show ?thesis
    by (simp add: stored_count_def filter_increment_other)
qed

lemma filter_id_empty:
  "(filter (\<lambda>x. msg_id x = m) xs = []) \<longleftrightarrow> m \<notin> set (map msg_id xs)"
  by (induction xs) auto

lemma stored_count_None_iff:
  "stored_count db m = None \<longleftrightarrow> m \<notin> set (map msg_id (messages db))"
  using filter_id_empty [of m "messages db"]
  by (cases "filter (\<lambda>x. msg_id x = m) (messages db)") (auto simp: stored_count_def)

lemma count_of_rows_stored:
  "count_of_rows (filter (\<lambda>x. msg_id x = m) (messages db)) =
     (case stored_count db m of None \<Rightarrow> 0 | Some c \<Rightarrow> c)"
  by (simp add: count_of_rows_def stored_count_def split: list.splits)

lemma count_of_rows_incremented:
  "count_of_rows (filter (\<lambda>x. msg_id x = m) (map (increment m) (messages db))) =
     (case stored_count db m of None \<Rightarrow> 0 | Some c \<Rightarrow> c + 1)"
  using count_of_rows_stored [of m "registered db m ip"] stored_count_registered [of db m ip m]
  by (simp split: option.splits)

lemma same_id_same_row:
  assumes "distinct (map msg_id xs)" and "x \<in> set xs" and "y \<in> set xs"
      and "msg_id x = msg_id y"
  shows "x = y"
  using assms by (meson distinct_map inj_on_def)

lemma only_counter:
  assumes "schema_ok db" and "stored_count db m = Some c"
      and "x \<in> set (messages db)" and "msg_id x = m"
  shows "reflection_count x = c"
proof -
  from assms(2) obtain y ys where f: "filter (\<lambda>x. msg_id x = m) (messages db) = y # ys"
    and c: "reflection_count y = c"
    by (auto simp: stored_count_def split: list.splits)
  have "y \<in> set (filter (\<lambda>x. msg_id x = m) (messages db))"
    by (simp add: f)
  then have "y \<in> set (messages db)" and "msg_id y = m"
    by simp_all
  then have "x = y"
    using assms(1,3,4) same_id_same_row [of "messages db" x y] by (simp add: schema_ok_def)
  then show ?thesis using c by simp
qed

lemma counter_not_full:
  assumes "schema_ok db" and "stored_count db m = Some c" and "c < int4_max"
  shows "\<not> counter_full db m"
  using only_counter [OF assms(1,2)] assms(3)
  by (fastforce simp: counter_full_def list_ex_iff)

section \<open>The constraints of the schema are kept\<close>

lemma insert_message_Inr:
  assumes "insert_message db txt cat auth cnt = Inr db'"
  shows "\<exists>x. db' = db\<lparr>messages := messages db @ [x],
                       messages_id_seq := messages_id_seq db + 1\<rparr> \<and>
             msg_id x = messages_id_seq db + 1 \<and>
             msg_id x \<notin> set (map msg_id (messages db)) \<and>
             msg_text x = txt \<and> reflection_count x = cnt \<and>
             (case cat of None \<Rightarrow> category x = None | Some c \<Rightarrow> varchar 50 c = category x) \<and>
             varchar 100 auth = Some (author x)"
  using assms
  by (auto simp: insert_message_def Let_def split: option.splits if_splits)

lemma insert_message_schema_ok:
  assumes "schema_ok db" and "insert_message db txt cat auth cnt = Inr db'"
  shows "schema_ok db'"
proof -
  from insert_message_Inr [OF assms(2)] obtain x where
    db': "db' = db\<lparr>messages := messages db @ [x], messages_id_seq := messages_id_seq db + 1\<rparr>"
    and x: "msg_id x = messages_id_seq db + 1" "msg_id x \<notin> set (map msg_id (messages db))"
    by blast
  show ?thesis
    using assms(1) x by (fastforce simp: db' schema_ok_def ledger_def list_all_iff)
qed

lemma schema_ok_registered:
  assumes "schema_ok db" and "m \<in> set (map msg_id (messages db))"
      and "(m, ip) \<notin> set (ledger db)"
  shows "schema_ok (registered db m ip)"
proof -
  have "messages_id_seq (registered db m ip) = messages_id_seq db"
    and "reflections (registered db m ip) = reflections db @ [\<lparr>message_id = m, user_ip = ip\<rparr>]"
    by (simp_all add: registered_def)
  then show ?thesis
    using assms by (simp add: schema_ok_def list_all_iff)
qed

lemma schema_ok_registerReflection:
  "schema_ok db \<Longrightarrow> schema_ok (snd (registerReflection f db mid v))"
  using registerReflection_db [of f db mid v] by (auto simp: schema_ok_registered)

lemma post_share_db:
  "snd (post_share f db body) = db \<or>
   (\<exists>txt cat auth. insert_message db txt cat auth 0 = Inr (snd (post_share f db body)))"
  by (auto simp: post_share_def Let_def pool_query_def split: jsval.splits sum.splits)

lemma schema_ok_post_share: "schema_ok db \<Longrightarrow> schema_ok (snd (post_share f db body))"
  using post_share_db [of f db body] by (auto intro: insert_message_schema_ok)

lemma schema_ok_seed_loop: "schema_ok db \<Longrightarrow> schema_ok (seed_loop f i msgs db)"
proof (induction f i msgs db rule: seed_loop.induct)
  case (1 f i db)
  then show ?case by simp
next
  case (2 f i body cat auth cnt msgs db)
  show ?case
  proof (cases "pool_query f (INSERT_seed i) (insert_message db body (Some cat) auth cnt)")
    case (Inl e)
    then show ?thesis using "2.prems" by simp
  next
    case (Inr db')
    then have "insert_message db body (Some cat) auth cnt = Inr db'"
      by (simp add: pool_query_def split: if_splits)
    then have "schema_ok db'"
      using "2.prems" insert_message_schema_ok by blast
    then show ?thesis using "2.IH" Inr by simp
  qed
qed

lemma schema_ok_initializeDatabase: "schema_ok db \<Longrightarrow> schema_ok (initializeDatabase f db)"
  by (simp add: initializeDatabase_def seedInitialData_def schema_ok_seed_loop)

section \<open>The counter and the ledger\<close>

lemma ledger_count_registered:
  "ledger_count (registered db m ip) m' = ledger_count db m' + (if m' = m then 1 else 0)"
  by (simp add: ledger_count_def registered_def)

lemma counter_surplus_registered: "counter_surplus (registered db m ip) = counter_surplus db"
  by (simp add: counter_surplus_def ledger_count_registered increment_def)

lemma counter_invariant_surplus:
  "counter_invariant db \<longleftrightarrow> list_all (\<lambda>d. d = 0) (counter_surplus db)"
  by (simp add: counter_invariant_def counter_surplus_def list_all_iff)

lemma no_row_for_new_id:
  assumes "schema_ok db" and "m \<notin> set (map msg_id (messages db))"
  shows "ledger_count db m = 0"
proof -
  have "filter (\<lambda>r. message_id r = m) (reflections db) = []"
    using assms by (auto simp: schema_ok_def list_all_iff filter_empty_conv)
  then show ?thesis by (simp add: ledger_count_def)
qed

lemma counter_surplus_insert_message:
  assumes "schema_ok db" and "insert_message db body cat auth cnt = Inr db'"
  shows "counter_surplus db' = counter_surplus db @ [cnt]"
proof -
  from insert_message_Inr [OF assms(2)] obtain x where
    db': "db' = db\<lparr>messages := messages db @ [x], messages_id_seq := messages_id_seq db + 1\<rparr>"
    and x: "msg_id x \<notin> set (map msg_id (messages db))" "reflection_count x = cnt"
    by blast
  have "ledger_count db' m = ledger_count db m" for m
    by (simp add: db' ledger_count_def)
  then have "counter_surplus db' =
      map (\<lambda>y. reflection_count y - ledger_count db (msg_id y)) (messages db')"
    by (simp add: counter_surplus_def)
  then show ?thesis
    using x no_row_for_new_id [OF assms(1) x(1)] by (simp add: db' counter_surplus_def)
qed

lemma counter_surplus_post_share:
  assumes "schema_ok db"
  shows "counter_surplus (snd (post_share f db body)) = counter_surplus db \<or>
         counter_surplus (snd (post_share f db body)) = counter_surplus db @ [0]"
  using post_share_db [of f db body] counter_surplus_insert_message [OF assms]
  by auto

text \<open>
  C1 (amended). For every message, \<open>registerReflection\<close> keeps the difference between the
  counter and the number of ledger rows of the message, whatever fails; a message
  submission keeps it for the messages there are and stores the new message with
  difference 0; initialisation leaves a store that holds messages as it is. So these
  operations preserve the equality of counter and ledger count wherever it holds, and all
  three keep the constraints of the schema. Seeding is the exception: see
  \<open>seeding_breaks_counter\<close> below.
\<close>

theorem counter_kept_except_by_seeding:
  "counter_surplus (snd (registerReflection f db mid v)) = counter_surplus db \<and>
   (schema_ok db \<longrightarrow>
      (counter_surplus (snd (post_share f db body)) = counter_surplus db \<or>
       counter_surplus (snd (post_share f db body)) = counter_surplus db @ [0]) \<and>
      schema_ok (snd (registerReflection f db mid v)) \<and>
      schema_ok (snd (post_share f db body)) \<and>
      schema_ok (initializeDatabase f db)) \<and>
   (messages db \<noteq> [] \<longrightarrow> initializeDatabase f db = db) \<and>
   (schema_ok db \<and> counter_invariant db \<longrightarrow>
      counter_invariant (snd (registerReflection f db mid v)) \<and>
      counter_invariant (snd (post_share f db body)))"
proof -
  have r: "counter_surplus (snd (registerReflection f db mid v)) = counter_surplus db"
    using registerReflection_db [of f db mid v] by (auto simp: counter_surplus_registered)
  have s: "counter_surplus (snd (post_share f db body)) = counter_surplus db \<or>
           counter_surplus (snd (post_share f db body)) = counter_surplus db @ [0]"
    if "schema_ok db"
    using that by (rule counter_surplus_post_share)
  have i: "messages db \<noteq> [] \<longrightarrow> initializeDatabase f db = db"
    by (simp add: initializeDatabase_def)
  have c: "counter_invariant (snd (registerReflection f db mid v)) \<and>
           counter_invariant (snd (post_share f db body))"
    if "schema_ok db" and "counter_invariant db"
    using r s [OF that(1)] that(2) by (auto simp: counter_invariant_surplus)
  show ?thesis
    using r s i c schema_ok_registerReflection schema_ok_post_share
      schema_ok_initializeDatabase
    by blast
qed

theorem counter_kept_except_by_seeding_witness:
  "schema_ok one_message_db \<and> counter_invariant one_message_db \<and>
   messages one_message_db \<noteq> [] \<and>
   snd (registerReflection no_faults one_message_db (Some 1) ''203.0.113.5'') = reflected_db \<and>
   counter_invariant reflected_db \<and> schema_ok reflected_db \<and>
   counter_surplus reflected_db = [0] \<and>
   initializeDatabase no_faults one_message_db = one_message_db \<and>
   counter_invariant
     (snd (post_share no_faults one_message_db
        \<lparr>body_message = Str ''hello'', body_category = Undefined, body_author = Undefined\<rparr>))"
proof -
  have ok: "schema_ok one_message_db \<and> counter_invariant one_message_db"
    by (simp add: example_defs schema_ok_def counter_invariant_def ledger_def ledger_count_def)
  have run: "snd (registerReflection no_faults one_message_db (Some 1) ''203.0.113.5'')
               = reflected_db"
    by (simp add: reflect_defs example_defs varchar_def ledger_def count_of_rows_def
          increment_def)
  have ne: "messages one_message_db \<noteq> []"
    by (simp add: example_defs)
  have surplus: "counter_surplus one_message_db = [0]"
    by (simp add: example_defs counter_surplus_def ledger_count_def)
  show ?thesis
    using ok run ne surplus
      counter_kept_except_by_seeding [of no_faults one_message_db "Some 1" "''203.0.113.5''"
        "\<lparr>body_message = Str ''hello'', body_category = Undefined, body_author = Undefined\<rparr>"]
    by simp
qed

text \<open>
  C1 as stated fails at initialisation: the empty store satisfies the equality, and
  \<open>initializeDatabase\<close> turns it into five messages with counters 7, 12, 9, 5, 15 and an
  empty ledger.
\<close>

theorem seeding_breaks_counter:
  "schema_ok empty_database \<and> counter_invariant empty_database \<and>
   \<not> counter_invariant (initializeDatabase no_faults empty_database) \<and>
   map reflection_count (messages (initializeDatabase no_faults empty_database))
     = [7, 12, 9, 5, 15] \<and>
   reflections (initializeDatabase no_faults empty_database) = []"
  by (simp add: schema_ok_def counter_invariant_def empty_database_def initializeDatabase_def
        no_faults_def seedInitialData_def initialMessages_def pool_query_def insert_message_def
        varchar_def ledger_def ledger_count_def has_nul_def int4_max_def)

section \<open>Errors of the store\<close>

text \<open>
  C2 (amended). The handler does not tell a violation of the uniqueness constraint from any
  other error. Whatever error \<open>e\<close> the ledger insert raises, the transaction of lines
  250-272 is rolled back and answered with status 500, the tables as they were. The
  already-reflected answer is given exactly when the pre-check runs and finds the pair in
  the ledger. A failure of the store in any statement that is reached gives status 500.
\<close>

theorem storage_errors_not_distinguished:
  "(insert_reflection db mid v = Inl e \<longrightarrow>
      reflect_catch (reflect_transaction f \<lparr>current = db, snapshot = None\<rparr> mid v)
        = (DatabaseError, db)) \<and>
   (fst (registerReflection f db mid v) = AlreadyReflected \<longleftrightarrow>
      \<not> f SELECT_existing \<and> (\<exists>m. mid = Some m \<and> (m, v) \<in> set (ledger db))) \<and>
   (f SELECT_existing \<longrightarrow> registerReflection f db mid v = (DatabaseError, db)) \<and>
   ((\<forall>m. mid = Some m \<longrightarrow> (m, v) \<notin> set (ledger db)) \<and>
    (f BEGIN \<or> f INSERT_reflection \<or> f UPDATE_count \<or> f COMMIT \<or> f SELECT_count)
      \<longrightarrow> fst (registerReflection f db mid v) = DatabaseError)"
proof -
  have a: "insert_reflection db mid v = Inl e \<longrightarrow>
      reflect_catch (reflect_transaction f \<lparr>current = db, snapshot = None\<rparr> mid v)
        = (DatabaseError, db)"
    by (simp add: reflect_catch_def reflect_transaction_def pool_query_def begin_tx_def
          on_current_def rollback_def)
  have b: "fst (registerReflection f db mid v) = AlreadyReflected \<longleftrightarrow>
      \<not> f SELECT_existing \<and> (\<exists>m. mid = Some m \<and> (m, v) \<in> set (ledger db))"
    by (simp add: registerReflection_cases split: option.splits)
  have c: "f SELECT_existing \<longrightarrow> registerReflection f db mid v = (DatabaseError, db)"
    by (simp add: registerReflection_cases)
  have d: "(\<forall>m. mid = Some m \<longrightarrow> (m, v) \<notin> set (ledger db)) \<and>
    (f BEGIN \<or> f INSERT_reflection \<or> f UPDATE_count \<or> f COMMIT \<or> f SELECT_count)
      \<longrightarrow> fst (registerReflection f db mid v) = DatabaseError"
    by (auto simp: registerReflection_cases split: option.splits)
  from a b c d show ?thesis by blast
qed

theorem storage_errors_not_distinguished_witness:
  "insert_reflection reflected_db (Some 1) ''203.0.113.5'' = Inl UniqueViolation \<and>
   reflect_catch (reflect_transaction no_faults
      \<lparr>current = reflected_db, snapshot = None\<rparr> (Some 1) ''203.0.113.5'')
     = (DatabaseError, reflected_db) \<and>
   fst (registerReflection no_faults reflected_db (Some 1) ''203.0.113.5'') = AlreadyReflected \<and>
   fail_at COMMIT COMMIT \<and>
   fst (registerReflection (fail_at COMMIT) one_message_db (Some 1) ''203.0.113.5'')
     = DatabaseError \<and>
   fail_at SELECT_existing SELECT_existing \<and>
   registerReflection (fail_at SELECT_existing) reflected_db (Some 1) ''203.0.113.5''
     = (DatabaseError, reflected_db)"
proof -
  have raised: "insert_reflection reflected_db (Some 1) ''203.0.113.5'' = Inl UniqueViolation"
    by (simp add: insert_reflection_def example_defs varchar_def ledger_def)
  have found: "(1, ''203.0.113.5'') \<in> set (ledger reflected_db)"
    by (simp add: example_defs ledger_def)
  have fresh: "\<forall>m. Some (1::int) = Some m \<longrightarrow> (m, ''203.0.113.5'') \<notin> set (ledger one_message_db)"
    by (simp add: example_defs ledger_def)
  show ?thesis
    using raised found fresh
      storage_errors_not_distinguished
        [of reflected_db "Some 1" "''203.0.113.5''" UniqueViolation no_faults]
      storage_errors_not_distinguished
        [of one_message_db "Some 1" "''203.0.113.5''" UniqueViolation "fail_at COMMIT"]
      storage_errors_not_distinguished
        [of reflected_db "Some 1" "''203.0.113.5''" UniqueViolation "fail_at SELECT_existing"]
    by (simp add: fail_at_def no_faults_def)
qed

text \<open>
  C2 as stated fails. In a store where the pair has been committed after the pre-check,
  the insert raises the uniqueness violation and the answer is status 500. The same
  happens within one call: the identity \<open>padded_ip\<close> is one space wider than the column,
  the pre-check compares it as it is and finds nothing, the insert stores it cut to 45
  characters, and that pair is in the ledger.
\<close>

theorem unique_violation_answered_500:
  "insert_reflection reflected_db (Some 1) ''203.0.113.5'' = Inl UniqueViolation \<and>
   reflect_catch (reflect_transaction no_faults
      \<lparr>current = reflected_db, snapshot = None\<rparr> (Some 1) ''203.0.113.5'')
     = (DatabaseError, reflected_db) \<and>
   select_existing wide_db (Some 1) padded_ip = Inr [] \<and>
   insert_reflection wide_db (Some 1) padded_ip = Inl UniqueViolation \<and>
   registerReflection no_faults wide_db (Some 1) padded_ip = (DatabaseError, wide_db) \<and>
   status_of DatabaseError \<noteq> AlreadyRegistered"
  by (simp add: reflect_defs example_defs varchar_def ledger_def status_of_def)

text \<open>
  C3 (amended). For a \<^verbatim>\<open>messageId\<close> that is no integer or that is the id of no message,
  in a store that satisfies its constraints, \<open>registerReflection\<close> answers status 500 (the
  storage failure) and leaves both tables as they were. No response of the route is read
  as \<open>NotFound\<close>.
\<close>

theorem missing_message_is_storage_error:
  assumes "schema_ok db"
      and "mid = None \<or> (\<exists>m. mid = Some m \<and> m \<notin> set (map msg_id (messages db)))"
  shows "registerReflection f db mid v = (DatabaseError, db) \<and>
         status_of (fst (registerReflection f db mid v)) = StorageError \<and>
         status_of (fst (registerReflection f' db' mid' v')) \<noteq> NotFound"
proof -
  have "(m, v) \<notin> set (ledger db)" if "m \<notin> set (map msg_id (messages db))" for m
    using assms(1) that by (auto simp: schema_ok_def ledger_def list_all_iff)
  then have "registerReflection f db mid v = (DatabaseError, db)"
    using assms(2) by (auto simp: registerReflection_cases split: option.splits)
  moreover have "status_of r \<noteq> NotFound" for r
    by (cases r) (simp_all add: status_of_def)
  ultimately show ?thesis by (simp add: status_of_def)
qed

theorem missing_message_is_storage_error_witness:
  "schema_ok one_message_db \<and> 99 \<notin> set (map msg_id (messages one_message_db)) \<and>
   registerReflection no_faults one_message_db (Some 99) ''203.0.113.5''
     = (DatabaseError, one_message_db) \<and>
   registerReflection no_faults one_message_db None ''203.0.113.5''
     = (DatabaseError, one_message_db)"
proof -
  have ok: "schema_ok one_message_db"
    by (simp add: example_defs schema_ok_def ledger_def)
  have missing: "Some (99::int) = None \<or>
      (\<exists>m. Some 99 = Some m \<and> m \<notin> set (map msg_id (messages one_message_db)))"
    by (simp add: example_defs)
  have no_int: "(None::int option) = None \<or>
      (\<exists>m. None = Some m \<and> m \<notin> set (map msg_id (messages one_message_db)))"
    by simp
  show ?thesis
    using ok missing
      missing_message_is_storage_error [OF ok missing, of no_faults "''203.0.113.5''"]
      missing_message_is_storage_error [OF ok no_int, of no_faults "''203.0.113.5''"]
    by simp
qed

text \<open>
  C3 as stated fails: message 99 does not exist in \<open>one_message_db\<close>, the pre-check finds
  nothing, the insert violates the foreign key, and the answer is status 500, not
  \<open>NotFound\<close>.
\<close>

theorem missing_message_not_reported:
  "99 \<notin> set (map msg_id (messages one_message_db)) \<and>
   select_existing one_message_db (Some 99) ''203.0.113.5'' = Inr [] \<and>
   insert_reflection one_message_db (Some 99) ''203.0.113.5'' = Inl ForeignKeyViolation \<and>
   fst (registerReflection no_faults one_message_db (Some 99) ''203.0.113.5'') = DatabaseError \<and>
   status_of (fst (registerReflection no_faults one_message_db (Some 99) ''203.0.113.5''))
     \<noteq> NotFound"
  by (simp add: reflect_defs example_defs varchar_def ledger_def status_of_def)

section \<open>Atomicity\<close>

text \<open>
  C4. Every call of \<open>registerReflection\<close> leaves the store either as it was, or with both
  the new ledger row and the counter of every row of that message one higher, all other
  rows and columns as they were: the ledger count of the message and its counter have both
  grown by one. A success is answered only in the second case and \<open>AlreadyReflected\<close> only
  in the first. When a statement of the transaction fails (\<^verbatim>\<open>BEGIN\<close>, the insert, the
  update or \<^verbatim>\<open>COMMIT\<close>, by a failure of the store, by a constraint or by the range of
  the counter), the store is as it was.
\<close>

theorem registration_atomic:
  assumes "registerReflection f db mid v = (r, db')"
  shows "(db' = db \<or>
          (\<exists>m ip. mid = Some m \<and> varchar 45 v = Some ip \<and>
             m \<in> set (map msg_id (messages db)) \<and> (m, ip) \<notin> set (ledger db) \<and>
             reflections db' = reflections db @ [\<lparr>message_id = m, user_ip = ip\<rparr>] \<and>
             messages db' =
               map (\<lambda>x. if msg_id x = m
                         then x\<lparr>reflection_count := reflection_count x + 1\<rparr> else x)
                   (messages db) \<and>
             messages_id_seq db' = messages_id_seq db \<and>
             ledger_count db' m = ledger_count db m + 1 \<and>
             (\<forall>c. stored_count db m = Some c \<longrightarrow> stored_count db' m = Some (c + 1)))) \<and>
         ((\<exists>n. r = Success n) \<longrightarrow> db' \<noteq> db \<and> ledger_count db' \<noteq> ledger_count db) \<and>
         (r = AlreadyReflected \<longrightarrow> db' = db) \<and>
         (f BEGIN \<or> f INSERT_reflection \<or> f UPDATE_count \<or> f COMMIT \<or>
            (\<exists>e. insert_reflection db mid v = Inl e) \<or>
            (\<exists>d e. insert_reflection db mid v = Inr d \<and> update_count d mid = Inl e)
          \<longrightarrow> db' = db)"
proof -
  have inc: "map (increment m) xs =
      map (\<lambda>x. if msg_id x = m then x\<lparr>reflection_count := reflection_count x + 1\<rparr> else x) xs"
    for m xs
    by (simp add: increment_def fun_eq_iff)
  have grown: "ledger_count (registered db m ip) m = ledger_count db m + 1" for m ip
    by (simp add: ledger_count_registered)
  then have differs: "registered db m ip \<noteq> db \<and> ledger_count (registered db m ip) \<noteq> ledger_count db"
    for m ip
    by (metis add_cancel_left_right zero_neq_one)
  have both: "reflections (registered db m ip) = reflections db @ [\<lparr>message_id = m, user_ip = ip\<rparr>] \<and>
        messages (registered db m ip) =
          map (\<lambda>x. if msg_id x = m
                    then x\<lparr>reflection_count := reflection_count x + 1\<rparr> else x)
              (messages db) \<and>
        messages_id_seq (registered db m ip) = messages_id_seq db \<and>
        ledger_count (registered db m ip) m = ledger_count db m + 1 \<and>
        (\<forall>c. stored_count db m = Some c \<longrightarrow> stored_count (registered db m ip) m = Some (c + 1))"
    for m ip
    using inc [of m "messages db"] grown [of m ip]
    by (simp add: stored_count_registered) (simp add: registered_def)
  have full: "counter_full d m = counter_full db m"
    if "insert_reflection db (Some m) v = Inr d" for d m
    using that
    by (auto simp: insert_reflection_def counter_full_def split: option.splits if_splits)
  have cases: "(r, db') =
    (if f SELECT_existing then (DatabaseError, db) else
     (case mid of None \<Rightarrow> (DatabaseError, db) | Some m \<Rightarrow>
       (if (m, v) \<in> set (ledger db) then (AlreadyReflected, db)
        else if f BEGIN \<or> f INSERT_reflection then (DatabaseError, db)
        else (case varchar 45 v of None \<Rightarrow> (DatabaseError, db) | Some ip \<Rightarrow>
          (if (m, ip) \<in> set (ledger db) \<or> m \<notin> set (map msg_id (messages db))
           then (DatabaseError, db)
           else if f UPDATE_count \<or> counter_full db m \<or> f COMMIT then (DatabaseError, db)
           else if f SELECT_count then (DatabaseError, registered db m ip)
           else (Success (count_of_rows
                            (filter (\<lambda>x. msg_id x = m) (messages (registered db m ip)))),
                 registered db m ip))))))"
    using assms by (simp add: registerReflection_cases)
  have a: "db' = db \<or>
          (\<exists>m ip. mid = Some m \<and> varchar 45 v = Some ip \<and>
             m \<in> set (map msg_id (messages db)) \<and> (m, ip) \<notin> set (ledger db) \<and>
             db' = registered db m ip)"
    using cases by (auto split: option.splits if_splits)
  have b: "(\<exists>n. r = Success n) \<longrightarrow> (\<exists>m ip. db' = registered db m ip)"
    using cases by (auto split: option.splits if_splits)
  have c: "r = AlreadyReflected \<longrightarrow> db' = db"
    using cases by (auto split: option.splits if_splits)
  have d: "f BEGIN \<or> f INSERT_reflection \<or> f UPDATE_count \<or> f COMMIT \<or>
            (\<exists>e. insert_reflection db mid v = Inl e) \<or>
            (\<exists>d e. insert_reflection db mid v = Inr d \<and> update_count d mid = Inl e)
          \<longrightarrow> db' = db"
  proof (intro impI)
    assume h: "f BEGIN \<or> f INSERT_reflection \<or> f UPDATE_count \<or> f COMMIT \<or>
            (\<exists>e. insert_reflection db mid v = Inl e) \<or>
            (\<exists>d e. insert_reflection db mid v = Inr d \<and> update_count d mid = Inl e)"
    show "db' = db"
    proof (cases mid)
      case None
      then show ?thesis using cases by (simp split: if_splits)
    next
      case (Some m)
      have "counter_full db m"
        if "insert_reflection db mid v = Inr d" and "update_count d mid = Inl e" for d e
        using that full [of m d] Some by (simp add: update_count_def split: if_splits)
      then show ?thesis
        using h cases Some
        by (auto simp: insert_reflection_def split: option.splits if_splits)
    qed
  qed
  from a both have a': "db' = db \<or>
          (\<exists>m ip. mid = Some m \<and> varchar 45 v = Some ip \<and>
             m \<in> set (map msg_id (messages db)) \<and> (m, ip) \<notin> set (ledger db) \<and>
             reflections db' = reflections db @ [\<lparr>message_id = m, user_ip = ip\<rparr>] \<and>
             messages db' =
               map (\<lambda>x. if msg_id x = m
                         then x\<lparr>reflection_count := reflection_count x + 1\<rparr> else x)
                   (messages db) \<and>
             messages_id_seq db' = messages_id_seq db \<and>
             ledger_count db' m = ledger_count db m + 1 \<and>
             (\<forall>c. stored_count db m = Some c \<longrightarrow> stored_count db' m = Some (c + 1)))"
    by blast
  have b': "(\<exists>n. r = Success n) \<longrightarrow> db' \<noteq> db \<and> ledger_count db' \<noteq> ledger_count db"
  proof (intro impI)
    assume "\<exists>n. r = Success n"
    with b obtain m ip where "db' = registered db m ip" by blast
    then show "db' \<noteq> db \<and> ledger_count db' \<noteq> ledger_count db"
      using differs [of m ip] by simp
  qed
  from a' b' c d show ?thesis by blast
qed

theorem registration_atomic_witness:
  "registerReflection (fail_at UPDATE_count) one_message_db (Some 1) ''203.0.113.5''
     = (DatabaseError, one_message_db) \<and>
   fail_at UPDATE_count UPDATE_count \<and>
   insert_reflection one_message_db (Some 1) ''203.0.113.5''
     = Inr (one_message_db\<lparr>reflections := [\<lparr>message_id = 1, user_ip = ''203.0.113.5''\<rparr>]\<rparr>) \<and>
   registerReflection no_faults one_message_db (Some 1) ''203.0.113.5''
     = (Success 1, reflected_db) \<and>
   reflections reflected_db
     = reflections one_message_db @ [\<lparr>message_id = 1, user_ip = ''203.0.113.5''\<rparr>] \<and>
   map reflection_count (messages one_message_db) = [0] \<and>
   map reflection_count (messages reflected_db) = [1] \<and>
   ledger_count reflected_db 1 = ledger_count one_message_db 1 + 1 \<and>
   insert_reflection one_message_db (Some 1) long_ip = Inl StringDataRightTruncation \<and>
   snd (registerReflection no_faults one_message_db (Some 1) long_ip) = one_message_db \<and>
   insert_reflection full_db (Some 1) ''203.0.113.5''
     = Inr (full_db\<lparr>reflections := [\<lparr>message_id = 1, user_ip = ''203.0.113.5''\<rparr>]\<rparr>) \<and>
   update_count (full_db\<lparr>reflections := [\<lparr>message_id = 1, user_ip = ''203.0.113.5''\<rparr>]\<rparr>)
      (Some 1) = Inl NumericValueOutOfRange \<and>
   snd (registerReflection no_faults full_db (Some 1) ''203.0.113.5'') = full_db"
proof -
  have undone: "registerReflection (fail_at UPDATE_count) one_message_db (Some 1) ''203.0.113.5''
                  = (DatabaseError, one_message_db)"
    by (simp add: reflect_defs example_defs varchar_def ledger_def)
  have both: "registerReflection no_faults one_message_db (Some 1) ''203.0.113.5''
                = (Success 1, reflected_db)"
    by (simp add: reflect_defs example_defs varchar_def ledger_def count_of_rows_def
          increment_def)
  have refused: "insert_reflection one_message_db (Some 1) long_ip
                   = Inl StringDataRightTruncation"
    by (simp add: insert_reflection_def example_defs varchar_def)
  obtain r d where run: "registerReflection no_faults one_message_db (Some 1) long_ip = (r, d)"
    by (cases "registerReflection no_faults one_message_db (Some 1) long_ip")
  have "d = one_message_db"
    using registration_atomic [OF run] refused by simp
  then have kept: "snd (registerReflection no_faults one_message_db (Some 1) long_ip)
                     = one_message_db"
    using run by simp
  have inserted: "insert_reflection full_db (Some 1) ''203.0.113.5''
     = Inr (full_db\<lparr>reflections := [\<lparr>message_id = 1, user_ip = ''203.0.113.5''\<rparr>]\<rparr>)"
    by (simp add: insert_reflection_def example_defs varchar_def ledger_def)
  have overflow: "update_count
      (full_db\<lparr>reflections := [\<lparr>message_id = 1, user_ip = ''203.0.113.5''\<rparr>]\<rparr>) (Some 1)
     = Inl NumericValueOutOfRange"
    by (simp add: update_count_def example_defs)
  obtain r' d' where run': "registerReflection no_faults full_db (Some 1) ''203.0.113.5'' = (r', d')"
    by (cases "registerReflection no_faults full_db (Some 1) ''203.0.113.5''")
  have "d' = full_db"
    using registration_atomic [OF run'] inserted overflow by simp
  then have full: "snd (registerReflection no_faults full_db (Some 1) ''203.0.113.5'') = full_db"
    using run' by simp
  have counts: "map reflection_count (messages one_message_db) = [0] \<and>
                map reflection_count (messages reflected_db) = [1]"
    by (simp add: example_defs)
  have "registerReflection (fail_at UPDATE_count) one_message_db (Some 1) ''203.0.113.5''
          = (DatabaseError, one_message_db) \<and>
        fail_at UPDATE_count UPDATE_count \<and>
        insert_reflection one_message_db (Some 1) ''203.0.113.5''
          = Inr (one_message_db\<lparr>reflections := [\<lparr>message_id = 1, user_ip = ''203.0.113.5''\<rparr>]\<rparr>) \<and>
        registerReflection no_faults one_message_db (Some 1) ''203.0.113.5''
          = (Success 1, reflected_db) \<and>
        reflections reflected_db
          = reflections one_message_db @ [\<lparr>message_id = 1, user_ip = ''203.0.113.5''\<rparr>] \<and>
        ledger_count reflected_db 1 = ledger_count one_message_db 1 + 1"
    using undone both registration_atomic [OF undone] registration_atomic [OF both]
    by (simp add: example_defs insert_reflection_def varchar_def ledger_def)
  with counts refused kept inserted overflow full show ?thesis
    by simp
qed

section \<open>Idempotence and the result\<close>

text \<open>
  C5 (amended). In a store that satisfies its constraints, let message \<open>m\<close> exist with a
  counter \<open>c\<close> below the largest INTEGER, let the voter identity \<open>v\<close> have at most 45
  characters and no reflection of \<open>m\<close> in the ledger, and let the store answer every
  statement. Then two calls of \<open>registerReflection\<close> in sequence answer \<open>Success (c + 1)\<close>
  and then \<open>AlreadyReflected\<close>; the first call adds the ledger row \<open>(m, v)\<close> and raises the
  counter of \<open>m\<close> alone, the second call changes nothing, and the counter of \<open>m\<close> is
  \<open>c + 1\<close> after both.
\<close>

theorem sequential_idempotence:
  assumes "schema_ok db"
      and "stored_count db m = Some c"
      and "c < int4_max"
      and "(m, v) \<notin> set (ledger db)"
      and "length v \<le> 45"
      and "registerReflection no_faults db (Some m) v = (r1, db1)"
      and "registerReflection no_faults db1 (Some m) v = (r2, db2)"
  shows "r1 = Success (c + 1) \<and> r2 = AlreadyReflected \<and> db2 = db1 \<and>
         stored_count db2 m = Some (c + 1) \<and>
         reflections db1 = reflections db @ [\<lparr>message_id = m, user_ip = v\<rparr>] \<and>
         messages db1 =
           map (\<lambda>x. if msg_id x = m then x\<lparr>reflection_count := c + 1\<rparr> else x) (messages db) \<and>
         messages_id_seq db1 = messages_id_seq db"
proof -
  have ex: "m \<in> set (map msg_id (messages db))"
    using assms(2) stored_count_None_iff [of db m] by auto
  have room: "\<not> counter_full db m"
    using assms(1-3) by (rule counter_not_full)
  have first: "r1 = Success (c + 1) \<and> db1 = registered db m v"
    using assms(2,4-6) ex room
    by (simp add: registerReflection_cases no_faults_def varchar_fits
          count_of_rows_incremented)
  have "(m, v) \<in> set (ledger db1)"
    using first by simp
  then have second: "r2 = AlreadyReflected \<and> db2 = db1"
    using assms(7) by (simp add: registerReflection_cases no_faults_def)
  have "increment m x = (if msg_id x = m then x\<lparr>reflection_count := c + 1\<rparr> else x)"
    if "x \<in> set (messages db)" for x
    using only_counter [OF assms(1,2) that] by (simp add: increment_def)
  then have rows: "map (increment m) (messages db) =
      map (\<lambda>x. if msg_id x = m then x\<lparr>reflection_count := c + 1\<rparr> else x) (messages db)"
    by simp
  have shape: "reflections (registered db m v) = reflections db @ [\<lparr>message_id = m, user_ip = v\<rparr>] \<and>
               messages_id_seq (registered db m v) = messages_id_seq db"
    by (simp add: registered_def)
  show ?thesis
    using first second assms(2) rows shape by (simp add: stored_count_registered)
qed

text \<open>
  The scenario of the specification: M1 starts at 0, voter \<open>203.0.113.5\<close> registers
  (count 1) and registers again (already registered), voter \<open>203.0.113.9\<close> registers
  (count 2).
\<close>

theorem sequential_idempotence_witness:
  "schema_ok one_message_db \<and>
   stored_count one_message_db 1 = Some 0 \<and> 0 < int4_max \<and>
   (1, ''203.0.113.5'') \<notin> set (ledger one_message_db) \<and>
   length ''203.0.113.5'' \<le> 45 \<and>
   registerReflection no_faults one_message_db (Some 1) ''203.0.113.5''
     = (Success 1, reflected_db) \<and>
   registerReflection no_faults reflected_db (Some 1) ''203.0.113.5''
     = (AlreadyReflected, reflected_db) \<and>
   stored_count reflected_db 1 = Some 1 \<and>
   fst (registerReflection no_faults reflected_db (Some 1) ''203.0.113.9'') = Success 2"
proof -
  have ok: "schema_ok one_message_db"
    by (simp add: example_defs schema_ok_def ledger_def)
  have c: "stored_count one_message_db 1 = Some 0"
    by (simp add: example_defs stored_count_def)
  have room: "0 < int4_max"
    by (simp add: int4_max_def)
  have fresh: "(1, ''203.0.113.5'') \<notin> set (ledger one_message_db)"
    by (simp add: example_defs ledger_def)
  have fits: "length ''203.0.113.5'' \<le> 45"
    by simp
  have first: "registerReflection no_faults one_message_db (Some 1) ''203.0.113.5''
                 = (Success 1, reflected_db)"
    by (simp add: reflect_defs example_defs varchar_def ledger_def count_of_rows_def
          increment_def)
  have second: "registerReflection no_faults reflected_db (Some 1) ''203.0.113.5''
                  = (AlreadyReflected, reflected_db)"
    by (simp add: reflect_defs example_defs)
  have third: "fst (registerReflection no_faults reflected_db (Some 1) ''203.0.113.9'')
                 = Success 2"
    by (simp add: reflect_defs example_defs varchar_def ledger_def count_of_rows_def
          increment_def)
  from sequential_idempotence [OF ok c room fresh fits first second]
  have after: "stored_count reflected_db 1 = Some 1"
    by simp
  from ok c room fresh fits first second after third show ?thesis
    by (intro conjI)
qed

text \<open>
  C5 as stated fails for an identity that does not fit the column: \<open>long_ip\<close> has 46
  characters, message 1 exists and has no reflection by it, and the first call is
  answered with status 500, the tables as they were. It fails as well when the counter
  is the largest INTEGER: the update of the first call raises.
\<close>

theorem long_identity_not_registered:
  "stored_count one_message_db 1 = Some 0 \<and>
   (1, long_ip) \<notin> set (ledger one_message_db) \<and>
   length long_ip = 46 \<and>
   registerReflection no_faults one_message_db (Some 1) long_ip
     = (DatabaseError, one_message_db) \<and>
   stored_count full_db 1 = Some 2147483647 \<and>
   (1, ''203.0.113.5'') \<notin> set (ledger full_db) \<and>
   registerReflection no_faults full_db (Some 1) ''203.0.113.5'' = (DatabaseError, full_db)"
  by (simp add: reflect_defs example_defs varchar_def ledger_def stored_count_def)

text \<open>
  C6. When \<open>registerReflection\<close> answers \<open>Success n\<close>, the pair was not in the ledger, the
  message exists, and \<open>n\<close> is its counter before the call plus one and its counter after
  the call. When the pair is in the ledger, the answer is never a success, the tables are
  as they were, and the answer is \<open>AlreadyReflected\<close> (which carries no count) unless the
  pre-check itself fails. The same holds, but for the kind of answer, when the pair is in
  the ledger as the column stores it: no second row, no second increment.
\<close>

theorem result_contract:
  "(registerReflection f db mid v = (Success n, db') \<longrightarrow>
      (\<exists>m c. mid = Some m \<and> (m, v) \<notin> set (ledger db) \<and>
             stored_count db m = Some c \<and> n = c + 1 \<and> stored_count db' m = Some n)) \<and>
   (mid = Some m \<and> (m, v) \<in> set (ledger db) \<longrightarrow>
      (\<forall>k. fst (registerReflection f db mid v) \<noteq> Success k) \<and>
      snd (registerReflection f db mid v) = db \<and>
      (\<not> f SELECT_existing \<longrightarrow> fst (registerReflection f db mid v) = AlreadyReflected)) \<and>
   (mid = Some m \<and> varchar 45 v = Some ip \<and> (m, ip) \<in> set (ledger db) \<longrightarrow>
      (\<forall>k. fst (registerReflection f db mid v) \<noteq> Success k) \<and>
      snd (registerReflection f db mid v) = db)"
proof -
  have "\<exists>c. stored_count db m = Some c \<and> k = c + 1 \<and>
            stored_count (registered db m ip) m = Some k"
    if "m \<in> set (map msg_id (messages db))"
       and "k = count_of_rows (filter (\<lambda>x. msg_id x = m) (messages (registered db m ip)))"
    for m ip k
  proof -
    from that(1) obtain c where c: "stored_count db m = Some c"
      using stored_count_None_iff [of db m] by (cases "stored_count db m") auto
    then show ?thesis
      using that(2) by (simp add: count_of_rows_incremented stored_count_registered)
  qed
  then show ?thesis
    by (auto simp: registerReflection_cases split: option.splits if_splits)
qed

theorem result_contract_witness:
  "registerReflection no_faults one_message_db (Some 1) ''203.0.113.5''
     = (Success 1, reflected_db) \<and>
   stored_count one_message_db 1 = Some 0 \<and> stored_count reflected_db 1 = Some 1 \<and>
   (1, ''203.0.113.5'') \<in> set (ledger reflected_db) \<and>
   \<not> no_faults SELECT_existing \<and>
   registerReflection no_faults reflected_db (Some 1) ''203.0.113.5''
     = (AlreadyReflected, reflected_db) \<and>
   varchar 45 padded_ip = Some wide_ip \<and> (1, wide_ip) \<in> set (ledger wide_db) \<and>
   snd (registerReflection no_faults wide_db (Some 1) padded_ip) = wide_db"
proof -
  have first: "registerReflection no_faults one_message_db (Some 1) ''203.0.113.5''
                 = (Success 1, reflected_db)"
    by (simp add: reflect_defs example_defs varchar_def ledger_def count_of_rows_def
          increment_def)
  have found: "(1, ''203.0.113.5'') \<in> set (ledger reflected_db)"
    by (simp add: example_defs ledger_def)
  have counts: "stored_count one_message_db 1 = Some 0 \<and> stored_count reflected_db 1 = Some 1"
    by (simp add: example_defs stored_count_def)
  have cut: "varchar 45 padded_ip = Some wide_ip \<and> (1, wide_ip) \<in> set (ledger wide_db)"
    by (simp add: example_defs varchar_def ledger_def)
  show ?thesis
    using first found counts cut
      result_contract [of no_faults one_message_db "Some 1" "''203.0.113.5''" 1 reflected_db]
      result_contract [of no_faults reflected_db "Some 1" "''203.0.113.5''" 1 reflected_db 1]
      result_contract [of no_faults wide_db "Some 1" padded_ip 1 wide_db 1 wide_ip]
    by (simp add: no_faults_def prod_eq_iff)
qed

section \<open>Message submission\<close>

lemma dropWhile_all:
  "(\<forall>x\<in>set (dropWhile P s). P x) \<longleftrightarrow> (\<forall>x\<in>set s. P x)"
proof
  assume all: "\<forall>x\<in>set (dropWhile P s). P x"
  have "dropWhile P s = []"
  proof (rule ccontr)
    assume ne: "dropWhile P s \<noteq> []"
    then have "\<not> P (hd (dropWhile P s))" by (rule hd_dropWhile)
    moreover have "hd (dropWhile P s) \<in> set (dropWhile P s)" using ne by simp
    ultimately show False using all by blast
  qed
  then show "\<forall>x\<in>set s. P x" by (simp add: dropWhile_eq_Nil_conv)
next
  assume "\<forall>x\<in>set s. P x"
  then show "\<forall>x\<in>set (dropWhile P s). P x" using set_dropWhileD by fastforce
qed

lemma trim_empty_iff: "trim s = [] \<longleftrightarrow> list_all js_space s"
  by (simp add: trim_def list_all_iff dropWhile_eq_Nil_conv dropWhile_all)

lemma trim_ends:
  assumes "trim s \<noteq> []"
  shows "\<not> js_space (hd (trim s)) \<and> \<not> js_space (last (trim s))"
proof -
  let ?a = "dropWhile js_space s"
  let ?b = "dropWhile js_space (rev ?a)"
  have b: "?b \<noteq> []" using assms by (simp add: trim_def)
  then have a: "?a \<noteq> []" by (cases "?a") auto
  have "last (trim s) = hd ?b"
    using b by (simp add: trim_def last_rev)
  then have l: "\<not> js_space (last (trim s))"
    using hd_dropWhile [OF b] by simp
  have "rev ?a = takeWhile js_space (rev ?a) @ ?b"
    by simp
  then have "last (rev ?a) = last ?b"
    using b by (metis last_appendR)
  moreover have "last (rev ?a) = hd ?a"
    using a by (simp add: last_rev)
  moreover have "hd (trim s) = last ?b"
    using b by (simp add: trim_def hd_rev)
  ultimately have "hd (trim s) = hd ?a" by simp
  then show ?thesis using l hd_dropWhile [OF a] by simp
qed

lemma trim_literal: "trim ''Anonymous'' = ''Anonymous''"
  by (simp add: trim_def js_space_def)

lemma varchar_literals:
  "varchar 50 ''Honest Message'' = Some ''Honest Message''"
  "varchar 100 ''Anonymous'' = Some ''Anonymous''"
  by (simp_all add: varchar_def)

lemma no_nul_literals: "\<not> has_nul ''Honest Message''" "\<not> has_nul ''Anonymous''"
  by (simp_all add: has_nul_def)

lemma trim_split:
  "\<exists>pre post. s = pre @ trim s @ post \<and> list_all js_space pre \<and> list_all js_space post"
proof -
  let ?a = "dropWhile js_space s"
  let ?pre = "takeWhile js_space s"
  let ?post = "rev (takeWhile js_space (rev ?a))"
  have "?a = trim s @ ?post"
    unfolding trim_def by (metis rev_append rev_rev_ident takeWhile_dropWhile_id)
  moreover have "s = ?pre @ ?a"
    by simp
  ultimately have "s = ?pre @ trim s @ ?post"
    by simp
  moreover have "list_all js_space ?pre"
    by (auto simp: list_all_iff dest: set_takeWhileD)
  moreover have "list_all js_space ?post"
    by (auto simp: list_all_iff dest: set_takeWhileD)
  ultimately show ?thesis by blast
qed

lemma set_trim: "set (trim s) \<subseteq> set s"
proof -
  obtain pre post where "s = pre @ trim s @ post"
    using trim_split [of s] by blast
  then have "set s = set pre \<union> set (trim s) \<union> set post"
    by (metis set_append sup_assoc)
  then show ?thesis by blast
qed

lemma length_trim: "length (trim s) \<le> length s"
proof -
  obtain pre post where "s = pre @ trim s @ post"
    using trim_split [of s] by blast
  then have "length s = length pre + length (trim s) + length post"
    by (metis length_append add.assoc)
  then show ?thesis by simp
qed

lemma trim_no_nul: "\<not> has_nul s \<Longrightarrow> \<not> has_nul (trim s)"
  using set_trim [of s] by (auto simp: has_nul_def)

text \<open>
  What \<open>post_share\<close> does with a text that is not blank, fields that are absent or plain
  strings, and a store that answers and has room for one more id.
\<close>

lemma post_share_stored:
  assumes "schema_ok db" and "messages_id_seq db < int4_max" and "\<not> f INSERT_message"
      and "body_message body = Str s" and "\<not> list_all js_space s" and "\<not> has_nul s"
      and "plain_field 50 (body_category body)" and "plain_field 100 (body_author body)"
  shows "post_share f db body =
        (Redirect ''/?success=true'',
         db\<lparr>messages := messages db @
               [\<lparr>msg_id = messages_id_seq db + 1, msg_text = trim s,
                 category = Some (case body_category body of
                                    Str c \<Rightarrow> c | _ \<Rightarrow> ''Honest Message''),
                 author = (case body_author body of
                             Str a \<Rightarrow> if trim a = [] then ''Anonymous'' else trim a
                           | _ \<Rightarrow> ''Anonymous''),
                 reflection_count = 0\<rparr>],
            messages_id_seq := messages_id_seq db + 1\<rparr>)"
proof -
  have fresh: "messages_id_seq db + 1 \<notin> set (map msg_id (messages db))"
    using assms(1) by (fastforce simp: schema_ok_def list_all_iff)
  have nonblank: "s \<noteq> [] \<and> trim s \<noteq> [] \<and> \<not> has_nul (trim s)"
    using assms(5,6) trim_empty_iff [of s] trim_no_nul by auto
  have auth: "\<not> has_nul (trim a) \<and> varchar 100 (trim a) = Some (trim a)"
    if "body_author body = Str a" for a
  proof -
    have "length a \<le> 100 \<and> \<not> has_nul a"
      using assms(8) that by (simp add: plain_field_def)
    then show ?thesis
      using length_trim [of a] trim_no_nul [of a] by (simp add: varchar_fits)
  qed
  have cat: "\<not> has_nul c \<and> varchar 50 c = Some c" if "body_category body = Str c" for c
    using assms(7) that by (simp add: plain_field_def varchar_fits)
  show ?thesis
  proof (cases "body_category body")
    case Undefined
    show ?thesis
    proof (cases "body_author body")
      case u: Undefined
      show ?thesis
        using assms(2-4) fresh nonblank Undefined u
        by (simp add: post_share_def Let_def pool_query_def default_to_def sql_param_def
              insert_message_def trim_literal varchar_literals no_nul_literals)
    next
      case (Str a)
      show ?thesis
        using assms(2-4) fresh nonblank Undefined Str auth [OF Str]
        by (simp add: post_share_def Let_def pool_query_def default_to_def sql_param_def
              insert_message_def varchar_literals no_nul_literals)
    next
      case (Other b q)
      then show ?thesis using assms(8) by (simp add: plain_field_def)
    qed
  next
    case c: (Str c)
    show ?thesis
    proof (cases "body_author body")
      case Undefined
      show ?thesis
        using assms(2-4) fresh nonblank c Undefined cat [OF c]
        by (simp add: post_share_def Let_def pool_query_def default_to_def sql_param_def
              insert_message_def trim_literal varchar_literals no_nul_literals)
    next
      case (Str a)
      show ?thesis
        using assms(2-4) fresh nonblank c Str auth [OF Str] cat [OF c]
        by (simp add: post_share_def Let_def pool_query_def default_to_def sql_param_def
              insert_message_def varchar_literals no_nul_literals)
    next
      case (Other b q)
      then show ?thesis using assms(8) by (simp add: plain_field_def)
    qed
  next
    case (Other b q)
    then show ?thesis using assms(7) by (simp add: plain_field_def)
  qed
qed

text \<open>
  C8. When the \<^verbatim>\<open>message\<close> field is absent, or is a string of white space only (the
  empty string included), \<open>post_share\<close> redirects with the empty-input error and the store
  is as it was. Otherwise, when the field is a string \<open>s\<close> without NUL character, the other
  two fields are absent or plain strings that fit their columns, and the store satisfies
  its constraints, answers and has an id left, \<open>post_share\<close> redirects to
  \<^verbatim>\<open>/?success=true\<close> and has added exactly one row, with the next id, counter 0 and
  the text \<open>trim s\<close>. In every case the \<^verbatim>\<open>messages\<close> table is as it was or has one more
  row whose text is the trimmed string field and is not empty; the row is there exactly
  when the answer is that redirect; the ledger is never touched. \<open>trim t\<close> is \<open>t\<close> without
  the white space at its two ends.
\<close>

theorem share_requires_text:
  "((body_message body = Undefined \<or> (\<exists>s. body_message body = Str s \<and> list_all js_space s)) \<longrightarrow>
       post_share f db body = (Redirect ''/share?error=empty'', db)) \<and>
   (schema_ok db \<and> messages_id_seq db < int4_max \<and> \<not> f INSERT_message \<and>
    body_message body = Str s \<and> \<not> list_all js_space s \<and> \<not> has_nul s \<and>
    plain_field 50 (body_category body) \<and> plain_field 100 (body_author body) \<longrightarrow>
       fst (post_share f db body) = Redirect ''/?success=true'' \<and>
       (\<exists>x. snd (post_share f db body) =
               db\<lparr>messages := messages db @ [x],
                  messages_id_seq := messages_id_seq db + 1\<rparr> \<and>
            msg_id x = messages_id_seq db + 1 \<and> msg_text x = trim s \<and>
            msg_text x \<noteq> [] \<and> reflection_count x = 0)) \<and>
   (messages (snd (post_share f db body)) = messages db \<or>
     (\<exists>s x. body_message body = Str s \<and>
            messages (snd (post_share f db body)) = messages db @ [x] \<and>
            msg_text x = trim s \<and> msg_text x \<noteq> [])) \<and>
   (fst (post_share f db body) = Redirect ''/?success=true'' \<longleftrightarrow>
      messages (snd (post_share f db body)) \<noteq> messages db) \<and>
   reflections (snd (post_share f db body)) = reflections db \<and>
   (\<exists>pre post. t = pre @ trim t @ post \<and> list_all js_space pre \<and> list_all js_space post) \<and>
   (trim t \<noteq> [] \<longrightarrow> \<not> js_space (hd (trim t)) \<and> \<not> js_space (last (trim t)))"
proof -
  have a: "(body_message body = Undefined \<or>
            (\<exists>s. body_message body = Str s \<and> list_all js_space s)) \<longrightarrow>
       post_share f db body = (Redirect ''/share?error=empty'', db)"
    by (auto simp: post_share_def Let_def trim_empty_iff)
  have b: "(messages (snd (post_share f db body)) = messages db \<or>
     (\<exists>s x. body_message body = Str s \<and>
            messages (snd (post_share f db body)) = messages db @ [x] \<and>
            msg_text x = trim s \<and> msg_text x \<noteq> [])) \<and>
     reflections (snd (post_share f db body)) = reflections db"
    by (auto simp: post_share_def Let_def pool_query_def
             split: jsval.splits sum.splits dest!: insert_message_Inr)
  have c: "fst (post_share f db body) = Redirect ''/?success=true'' \<longleftrightarrow>
      messages (snd (post_share f db body)) \<noteq> messages db"
    by (auto simp: post_share_def Let_def pool_query_def
             split: jsval.splits sum.splits dest!: insert_message_Inr)
  have d: "fst (post_share f db body) = Redirect ''/?success=true'' \<and>
       (\<exists>x. snd (post_share f db body) =
               db\<lparr>messages := messages db @ [x],
                  messages_id_seq := messages_id_seq db + 1\<rparr> \<and>
            msg_id x = messages_id_seq db + 1 \<and> msg_text x = trim s \<and>
            msg_text x \<noteq> [] \<and> reflection_count x = 0)"
    if "schema_ok db" and "messages_id_seq db < int4_max" and "\<not> f INSERT_message"
      and "body_message body = Str s" and "\<not> list_all js_space s" and "\<not> has_nul s"
      and "plain_field 50 (body_category body)" and "plain_field 100 (body_author body)"
  proof -
    let ?x = "\<lparr>msg_id = messages_id_seq db + 1, msg_text = trim s,
                 category = Some (case body_category body of
                                    Str c \<Rightarrow> c | _ \<Rightarrow> ''Honest Message''),
                 author = (case body_author body of
                             Str a \<Rightarrow> if trim a = [] then ''Anonymous'' else trim a
                           | _ \<Rightarrow> ''Anonymous''),
                 reflection_count = 0\<rparr>"
    have eq: "post_share f db body =
        (Redirect ''/?success=true'',
         db\<lparr>messages := messages db @ [?x], messages_id_seq := messages_id_seq db + 1\<rparr>)"
      using post_share_stored [of db f body s] that by simp
    have ne: "trim s \<noteq> []"
      using that(5) by (simp add: trim_empty_iff)
    have "snd (post_share f db body) =
            db\<lparr>messages := messages db @ [?x], messages_id_seq := messages_id_seq db + 1\<rparr> \<and>
          msg_id ?x = messages_id_seq db + 1 \<and> msg_text ?x = trim s \<and>
          msg_text ?x \<noteq> [] \<and> reflection_count ?x = 0"
      using eq ne by simp
    then have "\<exists>x. snd (post_share f db body) =
               db\<lparr>messages := messages db @ [x],
                  messages_id_seq := messages_id_seq db + 1\<rparr> \<and>
            msg_id x = messages_id_seq db + 1 \<and> msg_text x = trim s \<and>
            msg_text x \<noteq> [] \<and> reflection_count x = 0"
      by (rule exI)
    then show ?thesis using eq by simp
  qed
  have e: "\<exists>pre post. t = pre @ trim t @ post \<and> list_all js_space pre \<and> list_all js_space post"
    by (rule trim_split)
  have g: "trim t \<noteq> [] \<longrightarrow> \<not> js_space (hd (trim t)) \<and> \<not> js_space (last (trim t))"
    using trim_ends [of t] by blast
  from a b c d e g show ?thesis by blast
qed

theorem share_requires_text_witness:
  "list_all js_space [CHR '' '', CHR 0x09, CHR '' ''] \<and>
   post_share no_faults one_message_db
      \<lparr>body_message = Str [CHR '' '', CHR 0x09, CHR '' ''], body_category = Undefined,
        body_author = Undefined\<rparr>
     = (Redirect ''/share?error=empty'', one_message_db) \<and>
   post_share no_faults one_message_db
      \<lparr>body_message = Undefined, body_category = Undefined, body_author = Undefined\<rparr>
     = (Redirect ''/share?error=empty'', one_message_db) \<and>
   schema_ok one_message_db \<and> messages_id_seq one_message_db < int4_max \<and>
   \<not> no_faults INSERT_message \<and> \<not> list_all js_space ''  hello there '' \<and>
   \<not> has_nul ''  hello there '' \<and> plain_field 50 (Str ''Gratitude'') \<and>
   plain_field 100 (Str ''Sam'') \<and>
   trim ''  hello there '' = ''hello there'' \<and>
   fst (post_share no_faults one_message_db
      \<lparr>body_message = Str ''  hello there '', body_category = Str ''Gratitude'',
        body_author = Str ''Sam''\<rparr>) = Redirect ''/?success=true'' \<and>
   map msg_text (messages (snd (post_share no_faults one_message_db
      \<lparr>body_message = Str ''  hello there '', body_category = Str ''Gratitude'',
        body_author = Str ''Sam''\<rparr>)))
     = [''M1'', ''hello there'']"
proof -
  let ?body = "\<lparr>body_message = Str ''  hello there '', body_category = Str ''Gratitude'',
        body_author = Str ''Sam''\<rparr>"
  have blank: "list_all js_space [CHR '' '', CHR 0x09, CHR '' '']"
    by (simp add: js_space_def)
  have ok: "schema_ok one_message_db \<and> messages_id_seq one_message_db < int4_max \<and>
            \<not> no_faults INSERT_message"
    by (simp add: example_defs schema_ok_def ledger_def)
  have fields: "\<not> list_all js_space ''  hello there '' \<and> \<not> has_nul ''  hello there '' \<and>
      plain_field 50 (Str ''Gratitude'') \<and> plain_field 100 (Str ''Sam'')"
    by (simp add: js_space_def has_nul_def plain_field_def)
  have trimmed: "trim ''  hello there '' = ''hello there''"
    by (simp add: trim_def js_space_def)
  have before: "map msg_text (messages one_message_db) = [''M1'']"
    by (simp add: example_defs)
  from share_requires_text [of ?body no_faults one_message_db "''  hello there ''"] ok fields
  obtain x where stored: "fst (post_share no_faults one_message_db ?body)
                            = Redirect ''/?success=true''"
      "snd (post_share no_faults one_message_db ?body) =
         one_message_db\<lparr>messages := messages one_message_db @ [x],
                         messages_id_seq := messages_id_seq one_message_db + 1\<rparr>"
      "msg_text x = trim ''  hello there ''"
    by auto
  have texts: "map msg_text (messages (snd (post_share no_faults one_message_db ?body)))
                 = [''M1'', ''hello there'']"
    using stored(2,3) trimmed before by simp
  have empty: "post_share no_faults one_message_db
      \<lparr>body_message = Str [CHR '' '', CHR 0x09, CHR '' ''], body_category = Undefined,
        body_author = Undefined\<rparr>
     = (Redirect ''/share?error=empty'', one_message_db) \<and>
   post_share no_faults one_message_db
      \<lparr>body_message = Undefined, body_category = Undefined, body_author = Undefined\<rparr>
     = (Redirect ''/share?error=empty'', one_message_db)"
    using blank
      share_requires_text [of "\<lparr>body_message = Str [CHR '' '', CHR 0x09, CHR '' ''],
        body_category = Undefined, body_author = Undefined\<rparr>" no_faults one_message_db]
      share_requires_text [of "\<lparr>body_message = Undefined,
        body_category = Undefined, body_author = Undefined\<rparr>" no_faults one_message_db]
    by simp
  from blank empty ok fields trimmed stored(1) texts show ?thesis
    by simp
qed

text \<open>
  C9. A row that \<open>post_share\<close> stores has category \<^verbatim>\<open>'Honest Message'\<close> when the
  \<^verbatim>\<open>category\<close> field was absent and author \<^verbatim>\<open>'Anonymous'\<close> when the \<^verbatim>\<open>author\<close> field was
  absent. And the row is stored: with a message text that is not blank and has no NUL
  character, the two fields absent or plain strings that fit their columns, and a store
  that satisfies its constraints, answers and has an id left, \<open>post_share\<close> adds the row
  with the next id, the trimmed text, the category given or else \<^verbatim>\<open>'Honest Message'\<close>,
  the trimmed author given or else \<^verbatim>\<open>'Anonymous'\<close>, and counter 0.
\<close>

theorem share_defaults:
  "(messages (snd (post_share f db body)) \<noteq> messages db \<longrightarrow>
      (\<exists>x. messages (snd (post_share f db body)) = messages db @ [x] \<and>
           (body_category body = Undefined \<longrightarrow> category x = Some ''Honest Message'') \<and>
           (body_author body = Undefined \<longrightarrow> author x = ''Anonymous''))) \<and>
   (schema_ok db \<and> messages_id_seq db < int4_max \<and> \<not> f INSERT_message \<and>
    body_message body = Str s \<and> \<not> list_all js_space s \<and> \<not> has_nul s \<and>
    plain_field 50 (body_category body) \<and> plain_field 100 (body_author body) \<longrightarrow>
      post_share f db body =
        (Redirect ''/?success=true'',
         db\<lparr>messages := messages db @
               [\<lparr>msg_id = messages_id_seq db + 1, msg_text = trim s,
                 category = Some (case body_category body of
                                    Str c \<Rightarrow> c | _ \<Rightarrow> ''Honest Message''),
                 author = (case body_author body of
                             Str a \<Rightarrow> if trim a = [] then ''Anonymous'' else trim a
                           | _ \<Rightarrow> ''Anonymous''),
                 reflection_count = 0\<rparr>],
            messages_id_seq := messages_id_seq db + 1\<rparr>))"
proof -
  have a: "messages (snd (post_share f db body)) \<noteq> messages db \<longrightarrow>
      (\<exists>x. messages (snd (post_share f db body)) = messages db @ [x] \<and>
           (body_category body = Undefined \<longrightarrow> category x = Some ''Honest Message'') \<and>
           (body_author body = Undefined \<longrightarrow> author x = ''Anonymous''))"
    by (auto simp: post_share_def Let_def pool_query_def default_to_def sql_param_def
                   trim_literal varchar_literals
             split: jsval.splits sum.splits dest!: insert_message_Inr)
  from a post_share_stored [of db f body s] show ?thesis by blast
qed

theorem share_defaults_witness:
  "schema_ok one_message_db \<and> messages_id_seq one_message_db < int4_max \<and>
   \<not> no_faults INSERT_message \<and> \<not> list_all js_space ''hi'' \<and> \<not> has_nul ''hi'' \<and>
   plain_field 50 Undefined \<and> plain_field 100 Undefined \<and>
   post_share no_faults one_message_db
      \<lparr>body_message = Str ''hi'', body_category = Undefined, body_author = Undefined\<rparr>
     = (Redirect ''/?success=true'',
        \<lparr>messages = [M1, \<lparr>msg_id = 2, msg_text = ''hi'', category = Some ''Honest Message'',
                           author = ''Anonymous'', reflection_count = 0\<rparr>],
          reflections = [], messages_id_seq = 2\<rparr>) \<and>
   messages (snd (post_share no_faults one_message_db
      \<lparr>body_message = Str ''hi'', body_category = Undefined, body_author = Str ''Sam''\<rparr>))
     = [M1, \<lparr>msg_id = 2, msg_text = ''hi'', category = Some ''Honest Message'',
              author = ''Sam'', reflection_count = 0\<rparr>] \<and>
   messages (snd (post_share no_faults one_message_db
      \<lparr>body_message = Str ''hi'', body_category = Str ''Gratitude'', body_author = Undefined\<rparr>))
     = [M1, \<lparr>msg_id = 2, msg_text = ''hi'', category = Some ''Gratitude'',
              author = ''Anonymous'', reflection_count = 0\<rparr>]"
proof -
  have ok: "schema_ok one_message_db \<and> messages_id_seq one_message_db < int4_max \<and>
            \<not> no_faults INSERT_message"
    by (simp add: example_defs schema_ok_def ledger_def)
  have fields: "\<not> list_all js_space ''hi'' \<and> \<not> has_nul ''hi'' \<and>
      plain_field 50 Undefined \<and> plain_field 100 Undefined \<and>
      plain_field 50 (Str ''Gratitude'') \<and> plain_field 100 (Str ''Sam'')"
    by (simp add: js_space_def has_nul_def plain_field_def)
  have trimmed: "trim ''hi'' = ''hi'' \<and> trim ''Sam'' = ''Sam''"
    by (simp add: trim_def js_space_def)
  have "post_share no_faults one_message_db
      \<lparr>body_message = Str ''hi'', body_category = Undefined, body_author = Undefined\<rparr>
     = (Redirect ''/?success=true'',
        \<lparr>messages = [M1, \<lparr>msg_id = 2, msg_text = ''hi'', category = Some ''Honest Message'',
                           author = ''Anonymous'', reflection_count = 0\<rparr>],
          reflections = [], messages_id_seq = 2\<rparr>)"
    using ok fields trimmed
      share_defaults [of no_faults one_message_db
        "\<lparr>body_message = Str ''hi'', body_category = Undefined, body_author = Undefined\<rparr>"
        "''hi''"]
    by (simp add: one_message_db_def)
  moreover have "messages (snd (post_share no_faults one_message_db
      \<lparr>body_message = Str ''hi'', body_category = Undefined, body_author = Str ''Sam''\<rparr>))
     = [M1, \<lparr>msg_id = 2, msg_text = ''hi'', category = Some ''Honest Message'',
              author = ''Sam'', reflection_count = 0\<rparr>]"
    using ok fields trimmed
      share_defaults [of no_faults one_message_db
        "\<lparr>body_message = Str ''hi'', body_category = Undefined, body_author = Str ''Sam''\<rparr>"
        "''hi''"]
    by (simp add: one_message_db_def)
  moreover have "messages (snd (post_share no_faults one_message_db
      \<lparr>body_message = Str ''hi'', body_category = Str ''Gratitude'', body_author = Undefined\<rparr>))
     = [M1, \<lparr>msg_id = 2, msg_text = ''hi'', category = Some ''Gratitude'',
              author = ''Anonymous'', reflection_count = 0\<rparr>]"
    using ok fields trimmed
      share_defaults [of no_faults one_message_db
        "\<lparr>body_message = Str ''hi'', body_category = Str ''Gratitude'', body_author = Undefined\<rparr>"
        "''hi''"]
    by (simp add: one_message_db_def)
  ultimately show ?thesis
    using ok fields by simp
qed

section \<open>Voter identity and the shared identity \<open>unknown\<close>\<close>

lemma first_element_no_comma: "CHR '','' \<notin> set h \<Longrightarrow> first_element h = h"
  by (auto simp: first_element_def takeWhile_eq_all_conv)

lemma first_element_before_comma:
  "CHR '','' \<notin> set a \<Longrightarrow> first_element (a @ CHR '','' # b) = a"
  by (auto simp: first_element_def takeWhile_tail takeWhile_eq_all_conv)

lemma anonymous_identity: "anonymous q \<Longrightarrow> getClientIp q = ''unknown''"
  by (simp add: anonymous_def getClientIp_def or_else_def)

lemma ledger_grows:
  "p \<in> set (ledger db) \<Longrightarrow> p \<in> set (ledger (snd (post_reflect f db q)))"
  using registerReflection_db [of f db "req_messageId q" "getClientIp q"]
  by (auto simp: post_reflect_def)

lemma schema_ok_post_reflect: "schema_ok db \<Longrightarrow> schema_ok (snd (post_reflect f db q))"
  by (simp add: post_reflect_def schema_ok_registerReflection)

lemma schema_ok_serve: "schema_ok db \<Longrightarrow> schema_ok (snd (serve db reqs))"
proof (induction reqs arbitrary: db)
  case Nil
  then show ?case by simp
next
  case (Cons fq reqs)
  obtain f q where fq: "fq = (f, q)" by (cases fq)
  have "schema_ok (snd (post_reflect f db q))"
    using Cons.prems by (rule schema_ok_post_reflect)
  from Cons.IH [OF this] show ?case
    by (simp add: fq Let_def)
qed

lemma success_records:
  assumes "post_reflect f db q = (Success n, db')" and "anonymous q"
      and "req_messageId q = Some m"
  shows "(m, ''unknown'') \<in> set (ledger db')"
  using assms
  by (auto simp: post_reflect_def anonymous_identity registerReflection_cases varchar_def
           split: if_splits)

lemma recorded_no_success:
  assumes "(m, ''unknown'') \<in> set (ledger db)" and "anonymous q"
      and "req_messageId q = Some m"
  shows "\<not> is_success (fst (post_reflect f db q))"
  using assms
  by (simp add: post_reflect_def anonymous_identity registerReflection_cases is_success_def)

lemma no_more_successes:
  assumes "(m, ''unknown'') \<in> set (ledger db)" and "\<forall>fq\<in>set reqs. anonymous (snd fq)"
  shows "successes m (fst (serve db reqs)) reqs = 0"
  using assms
proof (induction reqs arbitrary: db)
  case Nil
  then show ?case by (simp add: successes_def)
next
  case (Cons fq reqs)
  obtain f q where fq: "fq = (f, q)" by (cases fq)
  obtain r db' where step: "post_reflect f db q = (r, db')" by (cases "post_reflect f db q")
  have an: "anonymous q" using Cons.prems(2) fq by simp
  have here: "\<not> (is_success r \<and> req_messageId q = Some m)"
    using recorded_no_success [OF Cons.prems(1) an, of f] step by auto
  have "(m, ''unknown'') \<in> set (ledger db')"
    using ledger_grows [OF Cons.prems(1), of f q] step by simp
  then have "successes m (fst (serve db' reqs)) reqs = 0"
    using Cons.IH Cons.prems(2) by simp
  then show ?case
    using here by (auto simp: fq step successes_def Let_def)
qed

lemma at_most_one_success:
  assumes "\<forall>fq\<in>set reqs. anonymous (snd fq)"
  shows "successes m (fst (serve db reqs)) reqs \<le> 1"
  using assms
proof (induction reqs arbitrary: db)
  case Nil
  then show ?case by (simp add: successes_def)
next
  case (Cons fq reqs)
  obtain f q where fq: "fq = (f, q)" by (cases fq)
  obtain r db' where step: "post_reflect f db q = (r, db')" by (cases "post_reflect f db q")
  have an: "anonymous q" using Cons.prems fq by simp
  have rest: "\<forall>fq\<in>set reqs. anonymous (snd fq)" using Cons.prems by simp
  have unfold: "successes m (fst (serve db (fq # reqs))) (fq # reqs) =
      (if is_success r \<and> req_messageId q = Some m then 1 else 0) +
      successes m (fst (serve db' reqs)) reqs"
    by (simp add: fq step successes_def Let_def)
  show ?case
  proof (cases "is_success r \<and> req_messageId q = Some m")
    case True
    then obtain n where "r = Success n" by (cases r) (auto simp: is_success_def)
    then have "(m, ''unknown'') \<in> set (ledger db')"
      using success_records [of f db q n db' m] step an True by simp
    then have "successes m (fst (serve db' reqs)) reqs = 0"
      using rest by (rule no_more_successes)
    then show ?thesis using unfold True by simp
  next
    case False
    then show ?thesis using unfold Cons.IH [OF rest, of db'] by auto
  qed
qed

lemma distinct_count_le_1: "distinct xs \<Longrightarrow> length (filter (\<lambda>p. p = a) xs) \<le> 1"
  by (induction xs) (auto simp: filter_empty_conv)

text \<open>
  C10 (amended). The identity is the first comma-separated element of the forwarded header
  when the header is present and that element is not empty; failing that, the request IP
  when it is present and not empty; failing that, \<^verbatim>\<open>'unknown'\<close>. All requests with
  neither header nor IP have the identity \<^verbatim>\<open>'unknown'\<close>, and of any sequence of such
  requests at most one per message is answered with success, whatever fails in between;
  the ledger of a store that satisfies its constraints ends with at most one row of that
  identity per message.
\<close>

theorem client_identity:
  "(x_forwarded_for req = Some h \<and> first_element h \<noteq> [] \<longrightarrow>
      getClientIp req = first_element h) \<and>
   ((x_forwarded_for req = None \<or>
     (\<exists>h. x_forwarded_for req = Some h \<and> first_element h = [])) \<longrightarrow>
        (req_ip req = Some a \<and> a \<noteq> [] \<longrightarrow> getClientIp req = a) \<and>
        (req_ip req = None \<or> req_ip req = Some [] \<longrightarrow> getClientIp req = ''unknown'')) \<and>
   ((\<forall>fq\<in>set reqs. anonymous (snd fq)) \<longrightarrow>
        (\<forall>fq\<in>set reqs. getClientIp (snd fq) = ''unknown'') \<and>
        successes m (fst (serve db reqs)) reqs \<le> 1 \<and>
        (schema_ok db \<longrightarrow>
           length (filter (\<lambda>p. p = (m, ''unknown'')) (ledger (snd (serve db reqs)))) \<le> 1))"
proof -
  have a: "x_forwarded_for req = Some h \<and> first_element h \<noteq> [] \<longrightarrow>
      getClientIp req = first_element h"
    by (simp add: getClientIp_def or_else_def)
  have b: "(x_forwarded_for req = None \<or>
            (\<exists>h. x_forwarded_for req = Some h \<and> first_element h = [])) \<longrightarrow>
        (req_ip req = Some a \<and> a \<noteq> [] \<longrightarrow> getClientIp req = a) \<and>
        (req_ip req = None \<or> req_ip req = Some [] \<longrightarrow> getClientIp req = ''unknown'')"
    by (auto simp: getClientIp_def or_else_def)
  have c: "(\<forall>fq\<in>set reqs. anonymous (snd fq)) \<longrightarrow>
        (\<forall>fq\<in>set reqs. getClientIp (snd fq) = ''unknown'') \<and>
        successes m (fst (serve db reqs)) reqs \<le> 1 \<and>
        (schema_ok db \<longrightarrow>
           length (filter (\<lambda>p. p = (m, ''unknown'')) (ledger (snd (serve db reqs)))) \<le> 1)"
  proof -
    have "length (filter (\<lambda>p. p = (m, ''unknown'')) (ledger (snd (serve db reqs)))) \<le> 1"
      if "schema_ok db"
    proof -
      have "distinct (ledger (snd (serve db reqs)))"
        using schema_ok_serve [OF that, of reqs] by (simp add: schema_ok_def)
      then show ?thesis by (rule distinct_count_le_1)
    qed
    then show ?thesis
      using at_most_one_success [of reqs m db] by (simp add: anonymous_identity)
  qed
  from a b c show ?thesis by simp
qed

theorem client_identity_witness:
  "first_element ''203.0.113.5, 10.0.0.1'' = ''203.0.113.5'' \<and>
   getClientIp \<lparr>x_forwarded_for = Some ''203.0.113.5, 10.0.0.1'', req_ip = Some ''10.0.0.1'',
                req_messageId = Some 1\<rparr> = ''203.0.113.5'' \<and>
   getClientIp \<lparr>x_forwarded_for = None, req_ip = Some ''10.0.0.1'', req_messageId = Some 1\<rparr>
     = ''10.0.0.1'' \<and>
   first_element '',10.0.0.1'' = [] \<and>
   getClientIp \<lparr>x_forwarded_for = Some '',10.0.0.1'', req_ip = Some [], req_messageId = Some 1\<rparr>
     = ''unknown'' \<and>
   anonymous anonymous_request \<and> getClientIp anonymous_request = ''unknown'' \<and>
   schema_ok one_message_db \<and>
   fst (serve one_message_db [(no_faults, anonymous_request), (no_faults, anonymous_request)])
     = [Success 1, AlreadyReflected] \<and>
   successes 1
     (fst (serve one_message_db [(no_faults, anonymous_request), (no_faults, anonymous_request)]))
     [(no_faults, anonymous_request), (no_faults, anonymous_request)] \<le> 1"
proof -
  let ?reqs = "[(no_faults, anonymous_request), (no_faults, anonymous_request)]"
  have first: "first_element ''203.0.113.5, 10.0.0.1'' = ''203.0.113.5''"
    by (simp add: first_element_def)
  have none: "first_element '',10.0.0.1'' = []"
    by (simp add: first_element_def)
  have an: "anonymous anonymous_request"
    by (simp add: anonymous_def anonymous_request_def)
  then have all: "\<forall>fq\<in>set ?reqs. anonymous (snd fq)"
    by simp
  have ok: "schema_ok one_message_db"
    by (simp add: example_defs schema_ok_def ledger_def)
  have run: "fst (serve one_message_db ?reqs) = [Success 1, AlreadyReflected]"
    by (simp add: post_reflect_def getClientIp_def or_else_def reflect_defs example_defs
          varchar_def ledger_def count_of_rows_def increment_def)
  show ?thesis
    using first none an all ok run
      client_identity [of "\<lparr>x_forwarded_for = Some '',10.0.0.1'',
          req_ip = Some [], req_messageId = Some 1\<rparr>"
        "'',10.0.0.1''" "''10.0.0.1''" ?reqs 1 one_message_db]
      client_identity [of "\<lparr>x_forwarded_for = Some ''203.0.113.5, 10.0.0.1'',
          req_ip = Some ''10.0.0.1'', req_messageId = Some 1\<rparr>"
        "''203.0.113.5, 10.0.0.1''" "''10.0.0.1''" ?reqs 1 one_message_db]
      client_identity [of "\<lparr>x_forwarded_for = None,
          req_ip = Some ''10.0.0.1'', req_messageId = Some 1\<rparr>"
        "''203.0.113.5, 10.0.0.1''" "''10.0.0.1''" ?reqs 1 one_message_db]
    by simp
qed

text \<open>
  C10 as stated fails when the header is present and its first element is empty: the
  identity is then the request IP, not that element.
\<close>

theorem empty_first_element_skipped:
  "first_element '',10.0.0.1'' = [] \<and>
   getClientIp \<lparr>x_forwarded_for = Some '',10.0.0.1'', req_ip = Some ''192.0.2.1'',
                req_messageId = Some 1\<rparr> = ''192.0.2.1'' \<and>
   getClientIp \<lparr>x_forwarded_for = Some '',10.0.0.1'', req_ip = Some ''192.0.2.1'',
                req_messageId = Some 1\<rparr> \<noteq> first_element '',10.0.0.1''"
  by (simp add: first_element_def getClientIp_def or_else_def)

end
